theory Spec2Isabelle
  imports Complex_Main
begin

section \<open>Data model\<close>

text \<open>
  The package works on pandas tables with a datetime index and float columns.
  A float cell is a \<open>real option\<close>: \<open>None\<close> is NaN (a missing value), \<open>Some x\<close> a
  finite number; arithmetic is exact (no rounding). Infinite samples are not cells of this
  embedding: the second embedding of covariance.py, further down, has them.
  A timestamp is an integer number of clock ticks since the epoch; the tick of a pandas
  datetime index is the nanosecond.

  A table is the list of its column labels and the list of its rows; a row is its index
  timestamp and the cells by column label. Only the labels in \<open>columns\<close> exist: every
  read of a cell is behind a membership test, as the lookup of a DataFrame is.
\<close>

datatype error = ValueError string | KeyError "string list"

record dataframe =
  columns :: "string list"
  rows :: "(int \<times> (string \<Rightarrow> real option)) list"

record series =
  name :: "string option"
  entries :: "(int \<times> real option) list"

subsection \<open>The pandas and numpy operations the package calls\<close>

text \<open>\<open>len(df)\<close> and \<open>df.index\<close>.\<close>

definition len :: "dataframe \<Rightarrow> nat" where
  "len df = length (rows df)"

definition index :: "dataframe \<Rightarrow> int list" where
  "index df = map fst (rows df)"

text \<open>The cells of one column; read only where the label is known to be a column.\<close>

definition cells :: "dataframe \<Rightarrow> string \<Rightarrow> real option list" where
  "cells df col = map (\<lambda>r. snd r col) (rows df)"

text \<open>\<open>df[col]\<close>: a KeyError when the label is not a column.\<close>

definition getitem :: "dataframe \<Rightarrow> string \<Rightarrow> error + real option list" where
  "getitem df col =
     (if col \<in> set (columns df) then Inr (cells df col) else Inl (KeyError [col]))"

text \<open>\<open>df[[c1, c2, ...]]\<close>: the table restricted to the listed columns, a KeyError
  naming the labels that are not columns.\<close>

definition getitem_list :: "dataframe \<Rightarrow> string list \<Rightarrow> error + dataframe" where
  "getitem_list df cols =
     (case filter (\<lambda>c. c \<notin> set (columns df)) cols of
        [] \<Rightarrow> Inr (df\<lparr>columns := cols\<rparr>)
      | c # cs \<Rightarrow> Inl (KeyError (c # cs)))"

text \<open>\<open>df.dropna()\<close>: the rows with no missing cell in any column.\<close>

definition dropna :: "dataframe \<Rightarrow> dataframe" where
  "dropna df = df\<lparr>rows := filter (\<lambda>r. list_all (\<lambda>c. snd r c \<noteq> None) (columns df)) (rows df)\<rparr>"

text \<open>\<open>df.iloc[i:j]\<close> for \<open>0 \<le> i \<le> j\<close>: the slice is clipped to the table.\<close>

definition iloc :: "dataframe \<Rightarrow> nat \<Rightarrow> nat \<Rightarrow> dataframe" where
  "iloc df i j = df\<lparr>rows := take (j - i) (drop i (rows df))\<rparr>"

text \<open>The present (non-NaN) values of a column, in order.\<close>

fun present :: "real option list \<Rightarrow> real list" where
  "present [] = []"
| "present (None # xs) = present xs"
| "present (Some x # xs) = x # present xs"

text \<open>\<open>Series.mean()\<close> (and \<open>np.mean\<close> of a Series, which calls it): missing values are
  skipped; the mean of no value is NaN.\<close>

definition series_mean :: "real option list \<Rightarrow> real option" where
  "series_mean xs =
     (let ys = present xs in
      if ys = [] then None else Some (sum_list ys / real (length ys)))"

text \<open>\<open>np.var(s, ddof=1)\<close> of a Series calls \<open>Series.var(ddof=1)\<close>: missing values are
  skipped, the squared deviations from the mean of the present values are summed and
  divided by their count minus one; NaN when at most one value is present.\<close>

definition series_var_ddof1 :: "real option list \<Rightarrow> real option" where
  "series_var_ddof1 xs =
     (let ys = present xs; n = length ys in
      if n \<le> 1 then None
      else let avg = sum_list ys / real n in
        Some (sum_list (map (\<lambda>y. (avg - y)\<^sup>2) ys) / (real n - 1)))"

text \<open>Float arithmetic with NaN: an operation on NaN is NaN.\<close>

fun nan_lift2 :: "(real \<Rightarrow> real \<Rightarrow> real) \<Rightarrow> real option \<Rightarrow> real option \<Rightarrow> real option" where
  "nan_lift2 f (Some a) (Some b) = Some (f a b)"
| "nan_lift2 f _ _ = None"

text \<open>\<open>s - m\<close> for a Series and a scalar, \<open>s * t\<close> for two Series on the same index,
  \<open>s * k\<close> for a result Series and a scalar (the name is kept).\<close>

definition series_sub :: "real option list \<Rightarrow> real option \<Rightarrow> real option list" where
  "series_sub xs m = map (\<lambda>x. nan_lift2 (-) x m) xs"

definition series_mul :: "real option list \<Rightarrow> real option list \<Rightarrow> real option list" where
  "series_mul xs ys = map (\<lambda>(x, y). nan_lift2 (*) x y) (zip xs ys)"

definition series_scale :: "series \<Rightarrow> real \<Rightarrow> series" where
  "series_scale s k = s\<lparr>entries := map (\<lambda>(t, x). (t, nan_lift2 (*) x (Some k))) (entries s)\<rparr>"

subsection \<open>Time buckets\<close>

definition second :: int where
  "second = 1000000000"

definition ticks_per_day :: int where
  "ticks_per_day = 86400 * second"

text \<open>
  \<open>df.groupby(pd.Grouper(freq=freq)).apply(f)\<close> on a datetime index, for a frequency of
  fixed length: \<open>freq\<close> is the bucket length in clock ticks. The Grouper is built with its
  defaults, \<open>origin='start_day'\<close> and buckets closed and labelled on the left: the origin
  of the buckets is midnight of the day of the earliest row of the table that is grouped,
  the bucket of timestamp \<open>t\<close> is number \<open>(t - origin) div freq\<close> and its label is its
  start \<open>origin + ((t - origin) div freq) * freq\<close>. The bins run from the bucket of the
  earliest row to the bucket of the latest row of the table that is grouped; \<open>f\<close> is
  applied to the rows of every bin, also of a bin with no row. A table with no row has no
  bin. A frequency that is not positive is refused.
\<close>

definition start_day :: "int list \<Rightarrow> int" where
  "start_day ts =
     (case ts of [] \<Rightarrow> 0
      | t # ts' \<Rightarrow> (fold min ts' t div ticks_per_day) * ticks_per_day)"

definition bins :: "int \<Rightarrow> int list \<Rightarrow> int list" where
  "bins freq ts =
     (case ts of [] \<Rightarrow> []
      | t # ts' \<Rightarrow> [(fold min ts' t - start_day ts) div freq ..
                    (fold max ts' t - start_day ts) div freq])"

definition bucket_rows :: "dataframe \<Rightarrow> int \<Rightarrow> int \<Rightarrow> dataframe" where
  "bucket_rows df freq b =
     df\<lparr>rows := filter (\<lambda>r. (fst r - start_day (index df)) div freq = b) (rows df)\<rparr>"

definition groupby_apply :: "dataframe \<Rightarrow> int \<Rightarrow> (dataframe \<Rightarrow> real option) \<Rightarrow> error + series" where
  "groupby_apply df freq f =
     (if freq \<le> 0 then Inl (ValueError ''Invalid frequency'')
      else Inr \<lparr>name = None,
                entries = map (\<lambda>b. (start_day (index df) + b * freq, f (bucket_rows df freq b)))
                            (bins freq (index df))\<rparr>)"

section \<open>covariance.py\<close>

text \<open>Inside a bucket the table has exactly the two selected columns, so the reads of
  \<open>g[vertical_var]\<close> and \<open>g[scalar_var]\<close> find their column.\<close>

definition compute_window_covariance :: "string \<Rightarrow> string \<Rightarrow> dataframe \<Rightarrow> real option" where
  "compute_window_covariance vertical_var scalar_var g =
     (let w_prime = series_sub (cells g vertical_var) (series_mean (cells g vertical_var));
          c_prime = series_sub (cells g scalar_var) (series_mean (cells g scalar_var))
      in series_mean (series_mul w_prime c_prime))"

definition covariance_flux :: "dataframe \<Rightarrow> string \<Rightarrow> string \<Rightarrow> int \<Rightarrow> real \<Rightarrow> error + series" where
  "covariance_flux df vertical_var scalar_var freq scale_factor =
     (case getitem_list df [vertical_var, scalar_var] of
        Inl e \<Rightarrow> Inl e
      | Inr df2 \<Rightarrow>
          (case groupby_apply (dropna df2) freq (compute_window_covariance vertical_var scalar_var) of
             Inl e \<Rightarrow> Inl e
           | Inr flux \<Rightarrow> Inr (series_scale (flux\<lparr>name := Some (scalar_var @ ''_flux'')\<rparr>) scale_factor)))"

section \<open>heat.py\<close>

definition sensible_heat_flux :: "dataframe \<Rightarrow> int \<Rightarrow> string \<Rightarrow> string \<Rightarrow> real \<Rightarrow> real \<Rightarrow> error + series" where
  "sensible_heat_flux df freq var_col wind_col rho cp =
     (let scale_factor = rho * cp in covariance_flux df wind_col var_col freq scale_factor)"

section \<open>momentum.py\<close>

text \<open>The window function of \<open>momentum_flux\<close>; the one of \<open>_momentum_flux\<close> in flux.py
  is the same text. Inside a bucket the table has exactly the three selected columns.\<close>

definition compute_tau_window :: "string \<Rightarrow> string \<Rightarrow> string \<Rightarrow> real \<Rightarrow> dataframe \<Rightarrow> real option" where
  "compute_tau_window u_col v_col w_col rho g =
     (let u_prime = series_sub (cells g u_col) (series_mean (cells g u_col));
          v_prime = series_sub (cells g v_col) (series_mean (cells g v_col));
          w_prime = series_sub (cells g w_col) (series_mean (cells g w_col));
          uw_cov = series_mean (series_mul u_prime w_prime);
          vw_cov = series_mean (series_mul v_prime w_prime)
      in nan_lift2 (*) (Some rho)
           (map_option sqrt (nan_lift2 (+) (map_option (\<lambda>x. x\<^sup>2) uw_cov) (map_option (\<lambda>x. x\<^sup>2) vw_cov))))"

definition momentum_flux :: "dataframe \<Rightarrow> int \<Rightarrow> string \<Rightarrow> string \<Rightarrow> string \<Rightarrow> real \<Rightarrow> error + series" where
  "momentum_flux df freq u_col v_col w_col rho =
     (case getitem_list df [u_col, v_col, w_col] of
        Inl e \<Rightarrow> Inl e
      | Inr df2 \<Rightarrow>
          (case groupby_apply (dropna df2) freq (compute_tau_window u_col v_col w_col rho) of
             Inl e \<Rightarrow> Inl e
           | Inr tau_series \<Rightarrow> Inr (tau_series\<lparr>name := Some ''tau_N_per_m2''\<rparr>)))"

section \<open>eddy.py\<close>

text \<open>\<open>df_prime[label] = values\<close> for values on the index of \<open>df_prime\<close>: an existing
  column is replaced in place, a new one is appended.\<close>

definition setitem :: "dataframe \<Rightarrow> string \<Rightarrow> real option list \<Rightarrow> dataframe" where
  "setitem df col vals =
     \<lparr>columns = (if col \<in> set (columns df) then columns df else columns df @ [col]),
      rows = map (\<lambda>(r, v). (fst r, (snd r)(col := v))) (zip (rows df) vals)\<rparr>"

text \<open>\<open>pd.DataFrame(index=df.index)\<close>: the index of \<open>df\<close> and no column.\<close>

definition empty_frame :: "dataframe \<Rightarrow> dataframe" where
  "empty_frame df = \<lparr>columns = [], rows = map (\<lambda>r. (fst r, (\<lambda>c. None))) (rows df)\<rparr>"

definition not_found_message :: "string \<Rightarrow> string" where
  "not_found_message col = ''Column '' @ [CHR 0x27] @ col @ [CHR 0x27] @ '' not found in DataFrame''"

fun fluctuations_loop :: "dataframe \<Rightarrow> string list \<Rightarrow> dataframe \<Rightarrow> error + dataframe" where
  "fluctuations_loop df [] df_prime = Inr df_prime"
| "fluctuations_loop df (col # cols) df_prime =
     (if col \<notin> set (columns df) then Inl (ValueError (not_found_message col))
      else fluctuations_loop df cols
             (setitem df_prime (col @ ''_prime'')
                (series_sub (cells df col) (series_mean (cells df col)))))"

text \<open>Every column of the model is numeric, so the default selection is every column.\<close>

definition fluctuations :: "dataframe \<Rightarrow> string list option \<Rightarrow> error + dataframe" where
  "fluctuations df cols =
     fluctuations_loop df (case cols of None \<Rightarrow> columns df | Some cs \<Rightarrow> cs) (empty_frame df)"

section \<open>flux.py\<close>

text \<open>\<open>str.upper()\<close> on the bytes of the selector: the ASCII letters a to z are mapped
  to A to Z, every other byte is kept. (No character outside ASCII has an upper case
  that spells H, L, LE or TAU.)\<close>

definition upper_char :: "char \<Rightarrow> char" where
  "upper_char c =
     (if 97 \<le> (of_char c :: nat) \<and> (of_char c :: nat) \<le> 122
      then char_of ((of_char c :: nat) - 32) else c)"

definition upper :: "string \<Rightarrow> string" where
  "upper s = map upper_char s"

definition flux_sensible_heat_flux :: "dataframe \<Rightarrow> int \<Rightarrow> string \<Rightarrow> string \<Rightarrow> real \<Rightarrow> real \<Rightarrow> error + series" where
  "flux_sensible_heat_flux df freq var_col wind_col rho cp =
     (let scale_factor = rho * cp in
      case covariance_flux df wind_col var_col freq scale_factor of
        Inl e \<Rightarrow> Inl e
      | Inr flux \<Rightarrow> Inr (flux\<lparr>name := Some ''H_W_per_m2''\<rparr>))"

definition flux_latent_heat_flux :: "dataframe \<Rightarrow> int \<Rightarrow> string \<Rightarrow> string \<Rightarrow> real \<Rightarrow> real \<Rightarrow> error + series" where
  "flux_latent_heat_flux df freq var_col wind_col rho Lv =
     (let scale_factor = rho * Lv in
      case covariance_flux df wind_col var_col freq scale_factor of
        Inl e \<Rightarrow> Inl e
      | Inr flux \<Rightarrow> Inr (flux\<lparr>name := Some ''LE_W_per_m2''\<rparr>))"

definition flux_momentum_flux :: "dataframe \<Rightarrow> int \<Rightarrow> string \<Rightarrow> string \<Rightarrow> string \<Rightarrow> real \<Rightarrow> error + series" where
  "flux_momentum_flux df freq u_col v_col w_col rho =
     (case getitem_list df [u_col, v_col, w_col] of
        Inl e \<Rightarrow> Inl e
      | Inr df2 \<Rightarrow>
          (case groupby_apply (dropna df2) freq (compute_tau_window u_col v_col w_col rho) of
             Inl e \<Rightarrow> Inl e
           | Inr tau_series \<Rightarrow> Inr (tau_series\<lparr>name := Some ''tau_N_per_m2''\<rparr>)))"

definition unknown_flux_message :: "string \<Rightarrow> string" where
  "unknown_flux_message flux =
     ''Unknown flux type: '' @ flux @ ''. Use '' @ [CHR 0x27] @ ''H'' @ [CHR 0x27] @ '', ''
       @ [CHR 0x27] @ ''L'' @ [CHR 0x27] @ ''/'' @ [CHR 0x27] @ ''LE'' @ [CHR 0x27] @ '', or ''
       @ [CHR 0x27] @ ''Tau'' @ [CHR 0x27]"

text \<open>\<open>kwargs.get(key, default)\<close>.\<close>

definition kwargs_get :: "(string \<rightharpoonup> string) \<Rightarrow> string \<Rightarrow> string \<Rightarrow> string" where
  "kwargs_get kwargs key dflt = (case kwargs key of None \<Rightarrow> dflt | Some x \<Rightarrow> x)"

definition ecflux :: "dataframe \<Rightarrow> string \<Rightarrow> string option \<Rightarrow> string \<Rightarrow> int \<Rightarrow> real \<Rightarrow> real \<Rightarrow> real \<Rightarrow> (string \<rightharpoonup> string) \<Rightarrow> error + series" where
  "ecflux raw_df w scalar flux0 freq rho cp Lv kwargs =
     (let flux = upper flux0 in
      if flux = ''H'' then
        (case scalar of
           None \<Rightarrow> Inl (ValueError ''scalar (temperature) must be specified for sensible heat flux'')
         | Some s \<Rightarrow> flux_sensible_heat_flux raw_df freq s w rho cp)
      else if flux = ''L'' \<or> flux = ''LE'' then
        (case scalar of
           None \<Rightarrow> Inl (ValueError ''scalar (specific humidity) must be specified for latent heat flux'')
         | Some s \<Rightarrow> flux_latent_heat_flux raw_df freq s w rho Lv)
      else if flux = ''TAU'' then
        (let u_col = kwargs_get kwargs ''u'' ''u'';
             v_col = kwargs_get kwargs ''v'' ''v''
         in flux_momentum_flux raw_df freq u_col v_col w rho)
      else Inl (ValueError (unknown_flux_message flux)))"

text \<open>The body of one full window of \<open>tke\<close>: the three column reads (each a KeyError
  when the label is not a column), the fluctuations and half the sum of the variances.\<close>

definition tke_window :: "dataframe \<Rightarrow> string \<Rightarrow> string \<Rightarrow> string \<Rightarrow> error + real option" where
  "tke_window window u v w =
     (case getitem window u of Inl e \<Rightarrow> Inl e | Inr wu \<Rightarrow>
     (case getitem window v of Inl e \<Rightarrow> Inl e | Inr wv \<Rightarrow>
     (case getitem window w of Inl e \<Rightarrow> Inl e | Inr ww \<Rightarrow>
        (let u_prime = series_sub wu (series_mean wu);
             v_prime = series_sub wv (series_mean wv);
             w_prime = series_sub ww (series_mean ww)
         in Inr (nan_lift2 (*) (Some (1 / 2))
                  (nan_lift2 (+)
                     (nan_lift2 (+) (series_var_ddof1 u_prime) (series_var_ddof1 v_prime))
                     (series_var_ddof1 w_prime)))))))"

text \<open>The loop \<open>for i in range(0, len(raw_df), window_size)\<close> for a positive step, with
  the two result lists as accumulators. A full window has \<open>window_size\<close> rows, so the
  read of \<open>window.index[window_size // 2]\<close> is in range.\<close>

function tke_loop :: "dataframe \<Rightarrow> nat \<Rightarrow> string \<Rightarrow> string \<Rightarrow> string \<Rightarrow> nat \<Rightarrow> real option list \<Rightarrow> int list \<Rightarrow> error + (real option list \<times> int list)" where
  "tke_loop raw_df window_size u v w i tke_list time_midpoints =
     (if window_size = 0 \<or> len raw_df \<le> i then Inr (tke_list, time_midpoints)
      else
        (let window = iloc raw_df i (i + window_size) in
         if len window < window_size
         then tke_loop raw_df window_size u v w (i + window_size) tke_list time_midpoints
         else
           (case tke_window window u v w of
              Inl e \<Rightarrow> Inl e
            | Inr tke_val \<Rightarrow>
                tke_loop raw_df window_size u v w (i + window_size)
                  (tke_list @ [tke_val])
                  (time_midpoints @ [index window ! (window_size div 2)]))))"
  by pat_completeness auto
termination
  by (relation "measure (\<lambda>(raw_df, window_size, u, v, w, i, tke_list, time_midpoints). len raw_df - i)") auto

text \<open>\<open>range\<close> refuses a step of zero, and is empty for a negative step.\<close>

definition tke :: "dataframe \<Rightarrow> int \<Rightarrow> string \<Rightarrow> string \<Rightarrow> string \<Rightarrow> error + (real option list \<times> int list)" where
  "tke raw_df window_size u v w =
     (if window_size = 0 then Inl (ValueError ''range() arg 3 must not be zero'')
      else if window_size < 0 then Inr ([], [])
      else tke_loop raw_df (nat window_size) u v w 0 [] [])"

section \<open>tke.py\<close>

text \<open>The legacy module repeats the loop of flux.py word for word, with the column
  parameters named \<open>u_col\<close>, \<open>v_col\<close>, \<open>w_col\<close>.\<close>

definition tke_module_tke :: "dataframe \<Rightarrow> int \<Rightarrow> string \<Rightarrow> string \<Rightarrow> string \<Rightarrow> error + (real option list \<times> int list)" where
  "tke_module_tke df window_size u_col v_col w_col =
     (if window_size = 0 then Inl (ValueError ''range() arg 3 must not be zero'')
      else if window_size < 0 then Inr ([], [])
      else tke_loop df (nat window_size) u_col v_col w_col 0 [] [])"

section \<open>covariance.py on floats with infinities\<close>

text \<open>
  A second embedding of \<open>covariance_flux\<close>, for the one property that tells NaN from a
  number at every input. A float is a finite number, one of the two infinities or NaN;
  the operations follow IEEE 754 on the special values (\<open>inf - inf\<close> and \<open>0 * inf\<close> are
  NaN) and are exact on finite numbers. The table, the pandas operations and the two
  functions of covariance.py are those of the first embedding with this cell type; the
  bins are the same. On tables without infinities the two embeddings agree
  (\<open>xcovariance_flux_to_xframe\<close> below).
\<close>

datatype xfloat = Finite real | PosInf | NegInf | XNaN

fun xneg :: "xfloat \<Rightarrow> xfloat" where
  "xneg (Finite a) = Finite (- a)"
| "xneg PosInf = NegInf"
| "xneg NegInf = PosInf"
| "xneg XNaN = XNaN"

fun xadd :: "xfloat \<Rightarrow> xfloat \<Rightarrow> xfloat" where
  "xadd XNaN y = XNaN"
| "xadd x XNaN = XNaN"
| "xadd (Finite a) (Finite b) = Finite (a + b)"
| "xadd PosInf NegInf = XNaN"
| "xadd NegInf PosInf = XNaN"
| "xadd PosInf y = PosInf"
| "xadd x PosInf = PosInf"
| "xadd NegInf y = NegInf"
| "xadd x NegInf = NegInf"

definition xsub :: "xfloat \<Rightarrow> xfloat \<Rightarrow> xfloat" where
  "xsub x y = xadd x (xneg y)"

fun xmul :: "xfloat \<Rightarrow> xfloat \<Rightarrow> xfloat" where
  "xmul XNaN y = XNaN"
| "xmul x XNaN = XNaN"
| "xmul (Finite a) (Finite b) = Finite (a * b)"
| "xmul (Finite a) y = (if a = 0 then XNaN else if 0 < a then y else xneg y)"
| "xmul x (Finite b) = (if b = 0 then XNaN else if 0 < b then x else xneg x)"
| "xmul PosInf y = y"
| "xmul NegInf y = xneg y"

text \<open>The division of a sum by the count of its terms, which is positive.\<close>

fun xdiv_count :: "xfloat \<Rightarrow> nat \<Rightarrow> xfloat" where
  "xdiv_count (Finite a) n = Finite (a / real n)"
| "xdiv_count x n = x"


record xframe =
  xcolumns :: "string list"
  xrows :: "(int \<times> (string \<Rightarrow> xfloat)) list"

record xseries =
  xname :: "string option"
  xentries :: "(int \<times> xfloat) list"

definition xindex :: "xframe \<Rightarrow> int list" where
  "xindex df = map fst (xrows df)"

definition xcells :: "xframe \<Rightarrow> string \<Rightarrow> xfloat list" where
  "xcells df col = map (\<lambda>r. snd r col) (xrows df)"

definition xgetitem_list :: "xframe \<Rightarrow> string list \<Rightarrow> error + xframe" where
  "xgetitem_list df cols =
     (case filter (\<lambda>c. c \<notin> set (xcolumns df)) cols of
        [] \<Rightarrow> Inr (df\<lparr>xcolumns := cols\<rparr>)
      | c # cs \<Rightarrow> Inl (KeyError (c # cs)))"

text \<open>\<open>df.dropna()\<close> drops the rows with a NaN; an infinity is not a missing value.\<close>

definition xdropna :: "xframe \<Rightarrow> xframe" where
  "xdropna df = df\<lparr>xrows := filter (\<lambda>r. list_all (\<lambda>c. snd r c \<noteq> XNaN) (xcolumns df)) (xrows df)\<rparr>"

text \<open>\<open>Series.mean()\<close>: NaN is skipped, the values are summed and divided by their
  count.\<close>

definition xseries_mean :: "xfloat list \<Rightarrow> xfloat" where
  "xseries_mean xs =
     (let ys = filter (\<lambda>x. x \<noteq> XNaN) xs in
      if ys = [] then XNaN else xdiv_count (foldl xadd (Finite 0) ys) (length ys))"

definition xseries_sub :: "xfloat list \<Rightarrow> xfloat \<Rightarrow> xfloat list" where
  "xseries_sub xs m = map (\<lambda>x. xsub x m) xs"

definition xseries_mul :: "xfloat list \<Rightarrow> xfloat list \<Rightarrow> xfloat list" where
  "xseries_mul xs ys = map (\<lambda>(x, y). xmul x y) (zip xs ys)"

definition xseries_scale :: "xseries \<Rightarrow> xfloat \<Rightarrow> xseries" where
  "xseries_scale s k = s\<lparr>xentries := map (\<lambda>(t, x). (t, xmul x k)) (xentries s)\<rparr>"

definition xbucket_rows :: "xframe \<Rightarrow> int \<Rightarrow> int \<Rightarrow> xframe" where
  "xbucket_rows df freq b =
     df\<lparr>xrows := filter (\<lambda>r. (fst r - start_day (xindex df)) div freq = b) (xrows df)\<rparr>"

definition xgroupby_apply :: "xframe \<Rightarrow> int \<Rightarrow> (xframe \<Rightarrow> xfloat) \<Rightarrow> error + xseries" where
  "xgroupby_apply df freq f =
     (if freq \<le> 0 then Inl (ValueError ''Invalid frequency'')
      else Inr \<lparr>xname = None,
                xentries = map (\<lambda>b. (start_day (xindex df) + b * freq, f (xbucket_rows df freq b)))
                             (bins freq (xindex df))\<rparr>)"

definition xcompute_window_covariance :: "string \<Rightarrow> string \<Rightarrow> xframe \<Rightarrow> xfloat" where
  "xcompute_window_covariance vertical_var scalar_var g =
     (let w_prime = xseries_sub (xcells g vertical_var) (xseries_mean (xcells g vertical_var));
          c_prime = xseries_sub (xcells g scalar_var) (xseries_mean (xcells g scalar_var))
      in xseries_mean (xseries_mul w_prime c_prime))"

definition xcovariance_flux :: "xframe \<Rightarrow> string \<Rightarrow> string \<Rightarrow> int \<Rightarrow> xfloat \<Rightarrow> error + xseries" where
  "xcovariance_flux df vertical_var scalar_var freq scale_factor =
     (case xgetitem_list df [vertical_var, scalar_var] of
        Inl e \<Rightarrow> Inl e
      | Inr df2 \<Rightarrow>
          (case xgroupby_apply (xdropna df2) freq (xcompute_window_covariance vertical_var scalar_var) of
             Inl e \<Rightarrow> Inl e
           | Inr flux \<Rightarrow> Inr (xseries_scale (flux\<lparr>xname := Some (scalar_var @ ''_flux'')\<rparr>) scale_factor)))"

text \<open>A table of one row whose \<open>w\<close> is infinite, and the table of gaps with one infinite
  sample in the first minute.\<close>

definition infinite_sample_table :: xframe where
  "infinite_sample_table = \<lparr>xcolumns = [''w'', ''T''],
           xrows = [(0, (\<lambda>c. XNaN)(''w'' := PosInf, ''T'' := Finite 1))]\<rparr>"

definition float_gap_table :: xframe where
  "float_gap_table = \<lparr>xcolumns = [''w'', ''T''],
           xrows = [(0, (\<lambda>c. XNaN)(''w'' := Finite 1, ''T'' := Finite 2)),
                    (10 * second, (\<lambda>c. XNaN)(''w'' := Finite 3, ''T'' := PosInf)),
                    (130 * second, (\<lambda>c. XNaN)(''w'' := Finite 3, ''T'' := Finite 4)),
                    (200 * second, (\<lambda>c. XNaN)(''T'' := Finite 5))]\<rparr>"

text \<open>The float, table and result of the first embedding in the second.\<close>

definition to_xfloat :: "real option \<Rightarrow> xfloat" where
  "to_xfloat v = (case v of None \<Rightarrow> XNaN | Some x \<Rightarrow> Finite x)"

definition to_xframe :: "dataframe \<Rightarrow> xframe" where
  "to_xframe df = \<lparr>xcolumns = columns df, xrows = map (\<lambda>r. (fst r, (\<lambda>c. to_xfloat (snd r c)))) (rows df)\<rparr>"

definition to_xseries :: "series \<Rightarrow> xseries" where
  "to_xseries s = \<lparr>xname = name s, xentries = map (\<lambda>e. (fst e, to_xfloat (snd e))) (entries s)\<rparr>"

section \<open>The specification's quantities\<close>

text \<open>The arithmetic mean of a list of numbers, the population covariance of two
  lists about their means (divisor \<open>n\<close>, no Bessel correction).\<close>

definition mean :: "real list \<Rightarrow> real" where
  "mean ys = sum_list ys / real (length ys)"

definition population_covariance :: "real list \<Rightarrow> real list \<Rightarrow> real" where
  "population_covariance ws cs = mean (map (\<lambda>(w, c). (w - mean ws) * (c - mean cs)) (zip ws cs))"

text \<open>The scenario of four rows at one second intervals: \<open>w = [1, 2, 3, 4]\<close>,
  \<open>T = [10, 11, 12, 13]\<close>.\<close>

definition scenario_table :: dataframe where
  "scenario_table = \<lparr>columns = [''w'', ''T''],
           rows = [(0, (\<lambda>c. None)(''w'' := Some 1, ''T'' := Some 10)),
                   (1 * second, (\<lambda>c. None)(''w'' := Some 2, ''T'' := Some 11)),
                   (2 * second, (\<lambda>c. None)(''w'' := Some 3, ''T'' := Some 12)),
                   (3 * second, (\<lambda>c. None)(''w'' := Some 4, ''T'' := Some 13))]\<rparr>"

text \<open>A table with two rows in the first minute, none in the second, one in the third,
  and a last row in the fourth minute whose \<open>w\<close> is missing.\<close>

definition gap_table :: dataframe where
  "gap_table = \<lparr>columns = [''w'', ''T''],
           rows = [(0, (\<lambda>c. None)(''w'' := Some 1, ''T'' := Some 2)),
                   (10 * second, (\<lambda>c. None)(''w'' := Some 3, ''T'' := Some 6)),
                   (130 * second, (\<lambda>c. None)(''w'' := Some 3, ''T'' := Some 4)),
                   (200 * second, (\<lambda>c. None)(''T'' := Some 5))]\<rparr>"

text \<open>A table of two rows five seconds apart, the first at midnight of the second day
  after the epoch: with buckets of seven seconds counted from that midnight, both rows
  are in one bucket.\<close>

definition second_day_table :: dataframe where
  "second_day_table = \<lparr>columns = [''w'', ''T''],
           rows = [(86400 * second, (\<lambda>c. None)(''w'' := Some 1, ''T'' := Some 2)),
                   (86405 * second, (\<lambda>c. None)(''w'' := Some 3, ''T'' := Some 6))]\<rparr>"

text \<open>The momentum scenario: \<open>u = [1, -1]\<close>, \<open>v = [0, 0]\<close>, \<open>w = [1, -1]\<close>, whose means are
  zero, so that the fluctuations are the values.\<close>

definition momentum_table :: dataframe where
  "momentum_table = \<lparr>columns = [''u'', ''v'', ''w''],
           rows = [(0, (\<lambda>c. None)(''u'' := Some 1, ''v'' := Some 0, ''w'' := Some 1)),
                   (1 * second, (\<lambda>c. None)(''u'' := Some (- 1), ''v'' := Some 0, ''w'' := Some (- 1)))]\<rparr>"

text \<open>A wind table with two rows in the first minute, a row with \<open>v\<close> missing in the
  second and one row in the third.\<close>

definition wind_table :: dataframe where
  "wind_table = \<lparr>columns = [''u'', ''v'', ''w''],
           rows = [(0, (\<lambda>c. None)(''u'' := Some 1, ''v'' := Some 4, ''w'' := Some 2)),
                   (20 * second, (\<lambda>c. None)(''u'' := Some 7, ''v'' := Some 12, ''w'' := Some 4)),
                   (70 * second, (\<lambda>c. None)(''u'' := Some 2, ''w'' := Some 4)),
                   (130 * second, (\<lambda>c. None)(''u'' := Some 3, ''v'' := Some 4, ''w'' := Some 5))]\<rparr>"

text \<open>Equality of two selectors ignoring case, by their lower case forms (ASCII).\<close>

definition lower_char :: "char \<Rightarrow> char" where
  "lower_char c =
     (if 65 \<le> (of_char c :: nat) \<and> (of_char c :: nat) \<le> 90
      then char_of ((of_char c :: nat) + 32) else c)"

definition equal_ignoring_case :: "string \<Rightarrow> string \<Rightarrow> bool" where
  "equal_ignoring_case s t \<longleftrightarrow> map lower_char s = map lower_char t"

text \<open>The sample variance of a list of numbers with the Bessel correction (divisor
  \<open>n - 1\<close>).\<close>

definition sample_variance :: "real list \<Rightarrow> real" where
  "sample_variance ys = (\<Sum>y\<leftarrow>ys. (y - mean ys)\<^sup>2) / (real (length ys) - 1)"

text \<open>A wind table of six rows: in the first four \<open>u\<close> is constant; the last two do
  not fill a window of four.\<close>

definition tke_table :: dataframe where
  "tke_table = \<lparr>columns = [''u'', ''v'', ''w''],
           rows = [(0, (\<lambda>c. None)(''u'' := Some 1, ''v'' := Some 1, ''w'' := Some 2)),
                   (1, (\<lambda>c. None)(''u'' := Some 1, ''v'' := Some 2, ''w'' := Some 4)),
                   (2, (\<lambda>c. None)(''u'' := Some 1, ''v'' := Some 3, ''w'' := Some 6)),
                   (3, (\<lambda>c. None)(''u'' := Some 1, ''v'' := Some 4, ''w'' := Some 8)),
                   (4, (\<lambda>c. None)(''u'' := Some 5, ''v'' := Some 6, ''w'' := Some 7)),
                   (5, (\<lambda>c. None)(''u'' := Some 8, ''v'' := Some 9, ''w'' := Some 10))]\<rparr>"

text \<open>The value that \<open>tke_window\<close> computes from the cells of a window.\<close>

definition tke_value :: "dataframe \<Rightarrow> string \<Rightarrow> string \<Rightarrow> string \<Rightarrow> real option" where
  "tke_value window u v w =
     nan_lift2 (*) (Some (1 / 2))
       (nan_lift2 (+)
          (nan_lift2 (+)
             (series_var_ddof1 (series_sub (cells window u) (series_mean (cells window u))))
             (series_var_ddof1 (series_sub (cells window v) (series_mean (cells window v)))))
          (series_var_ddof1 (series_sub (cells window w) (series_mean (cells window w)))))"

section \<open>Auxiliary facts\<close>

lemma present_all_Some: "present (map Some ys) = ys"
  by (induction ys) simp_all

lemma map_Some_present: "list_all (\<lambda>x. x \<noteq> None) xs \<Longrightarrow> map Some (present xs) = xs"
  by (induction xs rule: present.induct) simp_all

lemma series_mean_Some: "series_mean (map Some ys) = (if ys = [] then None else Some (mean ys))"
  by (simp add: series_mean_def present_all_Some mean_def)

lemma series_sub_Some: "series_sub (map Some ys) (Some m) = map Some (map (\<lambda>y. y - m) ys)"
  by (simp add: series_sub_def)

lemma series_mul_Some:
  "series_mul (map Some as) (map Some bs) = map Some (map (\<lambda>(a, b). a * b) (zip as bs))"
  by (simp add: series_mul_def zip_map_map case_prod_unfold)

lemma window_covariance_complete:
  assumes "cells g a = map Some ws" and "cells g b = map Some cs"
  shows "compute_window_covariance a b g =
           (if ws = [] \<or> cs = [] then None else Some (population_covariance ws cs))"
proof (cases "ws = [] \<or> cs = []")
  case True
  then show ?thesis using assms
    by (auto simp: compute_window_covariance_def series_mean_def series_sub_def series_mul_def)
next
  case False
  then have z: "zip ws cs \<noteq> []" by (cases ws; cases cs) simp_all
  have wp: "series_sub (cells g a) (series_mean (cells g a)) = map Some (map (\<lambda>y. y - mean ws) ws)"
    using False by (simp add: assms series_mean_Some series_sub_def)
  have cp: "series_sub (cells g b) (series_mean (cells g b)) = map Some (map (\<lambda>y. y - mean cs) cs)"
    using False by (simp add: assms series_mean_Some series_sub_def)
  have "compute_window_covariance a b g =
          series_mean (map Some (map (\<lambda>(x, y). x * y)
             (zip (map (\<lambda>y. y - mean ws) ws) (map (\<lambda>y. y - mean cs) cs))))"
    by (simp only: compute_window_covariance_def Let_def wp cp series_mul_Some)
  also have "\<dots> = Some (population_covariance ws cs)"
    using z by (simp only: series_mean_Some)
      (simp add: population_covariance_def zip_map_map case_prod_unfold comp_def)
  finally show ?thesis using False by simp
qed

lemma same_length_Nil: "length xs = length ys \<Longrightarrow> (xs = []) = (ys = [])"
  by (cases xs; cases ys) simp_all

lemma cells_complete:
  assumes "\<forall>r \<in> set rs. snd r a \<noteq> None"
  shows "cells (df\<lparr>rows := rs\<rparr>) a = map Some (present (map (\<lambda>r. snd r a) rs))"
proof -
  have "list_all (\<lambda>x. x \<noteq> None) (map (\<lambda>r. snd r a) rs)"
    using assms by (simp add: list_all_iff)
  then show ?thesis by (simp add: cells_def map_Some_present)
qed

lemma present_length_complete:
  assumes "\<forall>r \<in> set rs. snd r a \<noteq> None"
  shows "length (present (map (\<lambda>r. snd r a) rs)) = length rs"
  using assms by (induction rs) auto

lemma covariance_flux_buckets:
  assumes a: "vertical_var \<in> set (columns df)" and b: "scalar_var \<in> set (columns df)"
    and f: "0 < freq"
  shows "covariance_flux df vertical_var scalar_var freq scale_factor =
        Inr \<lparr>name = Some (scalar_var @ ''_flux''),
             entries =
               (let kept = filter (\<lambda>r. snd r vertical_var \<noteq> None \<and> snd r scalar_var \<noteq> None) (rows df);
                    origin = start_day (map fst kept)
                in map (\<lambda>b. (origin + b * freq,
                      (let g = filter (\<lambda>r. (fst r - origin) div freq = b) kept;
                           ws = present (map (\<lambda>r. snd r vertical_var) g);
                           cs = present (map (\<lambda>r. snd r scalar_var) g)
                       in if g = [] then None
                          else Some (scale_factor * population_covariance ws cs))))
                    (bins freq (map fst kept)))\<rparr>"
proof -
  let ?kept = "filter (\<lambda>r. snd r vertical_var \<noteq> None \<and> snd r scalar_var \<noteq> None) (rows df)"
  let ?df2 = "df\<lparr>columns := [vertical_var, scalar_var]\<rparr>"
  have sel: "getitem_list df [vertical_var, scalar_var] = Inr ?df2"
    using a b by (simp add: getitem_list_def)
  have dn: "dropna ?df2 = ?df2\<lparr>rows := ?kept\<rparr>"
    by (simp add: dropna_def)
  have win: "compute_window_covariance vertical_var scalar_var (bucket_rows (?df2\<lparr>rows := ?kept\<rparr>) freq b) =
             (if filter (\<lambda>r. (fst r - start_day (map fst ?kept)) div freq = b) ?kept = [] then None
              else Some (population_covariance
                           (present (map (\<lambda>r. snd r vertical_var) (filter (\<lambda>r. (fst r - start_day (map fst ?kept)) div freq = b) ?kept)))
                           (present (map (\<lambda>r. snd r scalar_var) (filter (\<lambda>r. (fst r - start_day (map fst ?kept)) div freq = b) ?kept)))))" for b
  proof -
    let ?g = "filter (\<lambda>r. (fst r - start_day (map fst ?kept)) div freq = b) ?kept"
    have pa: "\<forall>r \<in> set ?g. snd r vertical_var \<noteq> None" and pb: "\<forall>r \<in> set ?g. snd r scalar_var \<noteq> None"
      by auto
    have br: "bucket_rows (?df2\<lparr>rows := ?kept\<rparr>) freq b = ?df2\<lparr>rows := ?g\<rparr>"
      by (simp add: bucket_rows_def index_def)
    have la: "length (present (map (\<lambda>r. snd r vertical_var) ?g)) = length ?g"
      and lb: "length (present (map (\<lambda>r. snd r scalar_var) ?g)) = length ?g"
      using present_length_complete [OF pa] present_length_complete [OF pb] by simp_all
    have e: "(present (map (\<lambda>r. snd r vertical_var) ?g) = [] \<or> present (map (\<lambda>r. snd r scalar_var) ?g) = []) = (?g = [])"
      using same_length_Nil [OF la] same_length_Nil [OF lb] by simp
    show ?thesis
      unfolding br
      using window_covariance_complete [OF cells_complete [OF pa] cells_complete [OF pb]]
      by (simp only: e)
  qed
  have "covariance_flux df vertical_var scalar_var freq scale_factor =
        Inr (series_scale (\<lparr>name = None,
                entries = map (\<lambda>b. (start_day (map fst ?kept) + b * freq, compute_window_covariance vertical_var scalar_var
                                 (bucket_rows (?df2\<lparr>rows := ?kept\<rparr>) freq b)))
                            (bins freq (map fst ?kept))\<rparr>\<lparr>name := Some (scalar_var @ ''_flux'')\<rparr>) scale_factor)"
    using f by (simp add: covariance_flux_def sel dn groupby_apply_def index_def)
  then show ?thesis
    by (simp only: win) (simp add: series_scale_def Let_def mult.commute)
qed

section \<open>Covariance flux\<close>

text \<open>
  Claim C1. For a table with the columns \<open>vertical_var\<close> and \<open>scalar_var\<close> and a
  positive bucket length, \<open>covariance_flux\<close> keeps the rows in which neither column is
  missing, and for each time bucket of the kept rows (the buckets of the Grouper, counted
  from midnight of the day of the earliest kept row) returns
  \<open>scale_factor * mean ((w - mean w) * (c - mean c))\<close> over the rows of the bucket, the
  population covariance about the bucket means (NaN for a bucket with no row); the
  result is named \<open>scalar_var\<close> followed by \<open>_flux\<close>. For the scenario of four rows
  \<open>w = [1, 2, 3, 4]\<close>, \<open>T = [10, 11, 12, 13]\<close> in one bucket with scale factor 1 the
  result is 1.25.
\<close>

theorem covariance_flux_population_covariance:
  "(vertical_var \<in> set (columns df) \<longrightarrow> scalar_var \<in> set (columns df) \<longrightarrow> 0 < freq \<longrightarrow>
      covariance_flux df vertical_var scalar_var freq scale_factor =
        Inr \<lparr>name = Some (scalar_var @ ''_flux''),
             entries =
               (let kept = filter (\<lambda>r. snd r vertical_var \<noteq> None \<and> snd r scalar_var \<noteq> None) (rows df);
                    origin = start_day (map fst kept)
                in map (\<lambda>b. (origin + b * freq,
                      (let g = filter (\<lambda>r. (fst r - origin) div freq = b) kept;
                           ws = present (map (\<lambda>r. snd r vertical_var) g);
                           cs = present (map (\<lambda>r. snd r scalar_var) g)
                       in if g = [] then None
                          else Some (scale_factor * population_covariance ws cs))))
                    (bins freq (map fst kept)))\<rparr>)
   \<and> covariance_flux scenario_table ''w'' ''T'' (60 * second) 1 =
       Inr \<lparr>name = Some ''T_flux'', entries = [(0, Some 1.25)]\<rparr>"
proof (intro conjI impI)
  assume "vertical_var \<in> set (columns df)" and "scalar_var \<in> set (columns df)" and "0 < freq"
  then show "covariance_flux df vertical_var scalar_var freq scale_factor =
        Inr \<lparr>name = Some (scalar_var @ ''_flux''),
             entries =
               (let kept = filter (\<lambda>r. snd r vertical_var \<noteq> None \<and> snd r scalar_var \<noteq> None) (rows df);
                    origin = start_day (map fst kept)
                in map (\<lambda>b. (origin + b * freq,
                      (let g = filter (\<lambda>r. (fst r - origin) div freq = b) kept;
                           ws = present (map (\<lambda>r. snd r vertical_var) g);
                           cs = present (map (\<lambda>r. snd r scalar_var) g)
                       in if g = [] then None
                          else Some (scale_factor * population_covariance ws cs))))
                    (bins freq (map fst kept)))\<rparr>"
    by (rule covariance_flux_buckets)
next
  show "covariance_flux scenario_table ''w'' ''T'' (60 * second) 1 =
       Inr \<lparr>name = Some ''T_flux'', entries = [(0, Some 1.25)]\<rparr>"
    by (simp add: covariance_flux_def scenario_table_def getitem_list_def dropna_def groupby_apply_def
        bins_def start_day_def second_def ticks_per_day_def index_def bucket_rows_def
        compute_window_covariance_def cells_def series_sub_def series_mean_def series_mul_def
        series_scale_def)
qed

theorem covariance_flux_population_covariance_witness:
  "''w'' \<in> set (columns gap_table) \<and> ''T'' \<in> set (columns gap_table) \<and> 0 < 60 * second
   \<and> covariance_flux gap_table ''w'' ''T'' (60 * second) 2 =
       Inr \<lparr>name = Some ''T_flux'',
            entries = [(0, Some 4), (60 * second, None), (120 * second, Some 0)]\<rparr>
   \<and> ''w'' \<in> set (columns second_day_table) \<and> ''T'' \<in> set (columns second_day_table)
   \<and> 0 < 7 * second
   \<and> covariance_flux second_day_table ''w'' ''T'' (7 * second) 1 =
       Inr \<lparr>name = Some ''T_flux'', entries = [(86400 * second, Some 2)]\<rparr>"
  using covariance_flux_population_covariance [of "''w''" gap_table "''T''" "60 * second" 2]
    covariance_flux_population_covariance [of "''w''" second_day_table "''T''" "7 * second" 1]
  by (simp add: gap_table_def second_day_table_def bins_def start_day_def second_def
      ticks_per_day_def population_covariance_def mean_def upto.simps)

section \<open>Symmetry of the covariance\<close>

lemma nan_mul_commute: "nan_lift2 (*) x y = nan_lift2 (*) y x"
  by (cases x; cases y) simp_all

lemma series_mul_commute: "series_mul xs ys = series_mul ys xs"
proof -
  have "zip xs ys = map (\<lambda>(y, x). (x, y)) (zip ys xs)"
    by (rule zip_commute)
  then show ?thesis
    by (simp add: series_mul_def case_prod_unfold nan_mul_commute [of "fst _" "snd _"] comp_def)
qed

lemma compute_window_covariance_commute:
  "compute_window_covariance a b g = compute_window_covariance b a g"
  by (simp add: compute_window_covariance_def Let_def series_mul_commute)

lemma compute_window_covariance_rows:
  "rows g = rows g' \<Longrightarrow> compute_window_covariance a b g = compute_window_covariance a b g'"
  by (simp add: compute_window_covariance_def cells_def)

text \<open>
  Claim C7. For every table and every two of its columns \<open>a\<close> and \<open>b\<close>, the values per
  window of \<open>covariance_flux df a b freq 1\<close> and of \<open>covariance_flux df b a freq 1\<close> are the
  same: the covariance reducer is symmetric in its two variables.
\<close>

theorem covariance_flux_symmetric:
  assumes "a \<in> set (columns df)" and "b \<in> set (columns df)"
  shows "map_sum id entries (covariance_flux df a b freq 1) =
         map_sum id entries (covariance_flux df b a freq 1)"
proof -
  have r: "rows (dropna (df\<lparr>columns := [a, b]\<rparr>)) = rows (dropna (df\<lparr>columns := [b, a]\<rparr>))"
    by (simp add: dropna_def conj_commute)
  have w: "compute_window_covariance a b (bucket_rows (dropna (df\<lparr>columns := [a, b]\<rparr>)) freq k) =
           compute_window_covariance b a (bucket_rows (dropna (df\<lparr>columns := [b, a]\<rparr>)) freq k)" for k
    using r compute_window_covariance_rows [of "bucket_rows (dropna (df\<lparr>columns := [a, b]\<rparr>)) freq k"
        "bucket_rows (dropna (df\<lparr>columns := [b, a]\<rparr>)) freq k" a b]
    by (simp add: bucket_rows_def index_def compute_window_covariance_commute)
  show ?thesis
    using assms r
    by (simp add: covariance_flux_def getitem_list_def groupby_apply_def series_scale_def index_def w)
qed

theorem covariance_flux_symmetric_witness:
  "''w'' \<in> set (columns gap_table) \<and> ''T'' \<in> set (columns gap_table) \<and>
   map_sum id entries (covariance_flux gap_table ''w'' ''T'' (60 * second) 1) = Inr [(0, Some 2), (60 * second, None), (120 * second, Some 0)] \<and>
   map_sum id entries (covariance_flux gap_table ''T'' ''w'' (60 * second) 1) = Inr [(0, Some 2), (60 * second, None), (120 * second, Some 0)]"
proof -
  have c: "''w'' \<in> set (columns gap_table)" "''T'' \<in> set (columns gap_table)"
    by (simp_all add: gap_table_def)
  have v: "map_sum id entries (covariance_flux gap_table ''w'' ''T'' (60 * second) 1) = Inr [(0, Some 2), (60 * second, None), (120 * second, Some 0)]"
    by (simp add: covariance_flux_def gap_table_def getitem_list_def dropna_def groupby_apply_def
        bins_def start_day_def second_def ticks_per_day_def index_def bucket_rows_def
        compute_window_covariance_def cells_def series_sub_def series_mean_def series_mul_def
        series_scale_def upto.simps)
  show ?thesis
    using covariance_flux_symmetric [OF c, of "60 * second"] c v by simp
qed

section \<open>The legacy sensible heat wrapper\<close>

lemma flux_name_differs: "var_col @ ''_flux'' \<noteq> ''H_W_per_m2''"
proof
  assume "var_col @ ''_flux'' = ''H_W_per_m2''"
  then have "rev (var_col @ ''_flux'') = rev ''H_W_per_m2''" by simp
  then show False by simp
qed

text \<open>
  Claim C9. The legacy wrapper \<open>sensible_heat_flux df freq var_col wind_col rho cp\<close> and
  \<open>ecflux\<close> with \<open>w = wind_col\<close>, \<open>scalar = var_col\<close>, \<open>flux = 'H'\<close> and the same
  \<open>freq\<close>, \<open>rho\<close>, \<open>cp\<close> return the same values per window, those of
  \<open>covariance_flux\<close> with the scale factor \<open>rho * cp\<close> (or fail with the same error);
  the results differ in their name only: the wrapper keeps \<open>var_col\<close> followed by
  \<open>_flux\<close>, \<open>ecflux\<close> renames to \<open>H_W_per_m2\<close>.
\<close>

theorem sensible_heat_flux_ecflux_values:
  "map_sum id entries (sensible_heat_flux df freq var_col wind_col rho cp) =
     map_sum id entries (covariance_flux df wind_col var_col freq (rho * cp))
   \<and> map_sum id entries (ecflux df wind_col (Some var_col) ''H'' freq rho cp Lv kwargs) =
     map_sum id entries (covariance_flux df wind_col var_col freq (rho * cp))
   \<and> (case (sensible_heat_flux df freq var_col wind_col rho cp,
            ecflux df wind_col (Some var_col) ''H'' freq rho cp Lv kwargs) of
         (Inr legacy, Inr routed) \<Rightarrow>
            entries legacy = entries routed \<and> name legacy = Some (var_col @ ''_flux'')
            \<and> name routed = Some ''H_W_per_m2'' \<and> name legacy \<noteq> name routed
       | (Inl e, Inl e') \<Rightarrow> e = e'
       | _ \<Rightarrow> False)"
proof -
  have up: "upper ''H'' = ''H''"
    by (simp add: upper_def upper_char_def)
  have leg: "sensible_heat_flux df freq var_col wind_col rho cp =
             covariance_flux df wind_col var_col freq (rho * cp)"
    by (simp add: sensible_heat_flux_def)
  have ec: "ecflux df wind_col (Some var_col) ''H'' freq rho cp Lv kwargs =
            (case covariance_flux df wind_col var_col freq (rho * cp) of
               Inl e \<Rightarrow> Inl e | Inr flux \<Rightarrow> Inr (flux\<lparr>name := Some ''H_W_per_m2''\<rparr>))"
    by (simp add: ecflux_def up flux_sensible_heat_flux_def)
  have nm: "covariance_flux df wind_col var_col freq (rho * cp) = Inr s \<Longrightarrow> name s = Some (var_col @ ''_flux'')" for s
    by (auto simp: covariance_flux_def groupby_apply_def series_scale_def split: sum.splits if_splits)
  show ?thesis
    unfolding leg ec
    by (cases "covariance_flux df wind_col var_col freq (rho * cp)")
       (simp_all add: nm flux_name_differs)
qed

theorem sensible_heat_flux_ecflux_values_witness:
  "map_sum id entries (sensible_heat_flux gap_table (60 * second) ''T'' ''w'' 2 3) = Inr [(0, Some 12), (60 * second, None), (120 * second, Some 0)]
   \<and> map_sum id entries (ecflux gap_table ''w'' (Some ''T'') ''H'' (60 * second) 2 3 5 Map.empty) = Inr [(0, Some 12), (60 * second, None), (120 * second, Some 0)]"
proof -
  have v: "map_sum id entries (covariance_flux gap_table ''w'' ''T'' (60 * second) (2 * 3)) = Inr [(0, Some 12), (60 * second, None), (120 * second, Some 0)]"
    by (simp add: covariance_flux_def gap_table_def getitem_list_def dropna_def groupby_apply_def
        bins_def start_day_def second_def ticks_per_day_def index_def bucket_rows_def
        compute_window_covariance_def cells_def series_sub_def series_mean_def series_mul_def
        series_scale_def upto.simps)
  show ?thesis
    using sensible_heat_flux_ecflux_values [of gap_table "60 * second" "''T''" "''w''" 2 3 5 Map.empty] v
    by simp
qed

section \<open>Momentum flux\<close>

lemma compute_tau_window_covariances:
  "compute_tau_window u_col v_col w_col rho g =
     nan_lift2 (*) (Some rho)
       (map_option sqrt
          (nan_lift2 (+)
             (map_option (\<lambda>x. x\<^sup>2) (compute_window_covariance u_col w_col g))
             (map_option (\<lambda>x. x\<^sup>2) (compute_window_covariance v_col w_col g))))"
  by (simp add: compute_tau_window_def compute_window_covariance_def Let_def)

lemma tau_series_buckets:
  assumes u: "u_col \<in> set (columns df)" and v: "v_col \<in> set (columns df)"
    and w: "w_col \<in> set (columns df)" and f: "0 < freq"
  shows "(case getitem_list df [u_col, v_col, w_col] of
            Inl e \<Rightarrow> Inl e
          | Inr df2 \<Rightarrow>
              (case groupby_apply (dropna df2) freq (compute_tau_window u_col v_col w_col rho) of
                 Inl e \<Rightarrow> Inl e
               | Inr tau_series \<Rightarrow> Inr (tau_series\<lparr>name := Some ''tau_N_per_m2''\<rparr>))) =
        Inr \<lparr>name = Some ''tau_N_per_m2'',
             entries =
               (let kept = filter (\<lambda>r. snd r u_col \<noteq> None \<and> snd r v_col \<noteq> None \<and> snd r w_col \<noteq> None) (rows df);
                    origin = start_day (map fst kept)
                in map (\<lambda>b. (origin + b * freq,
                      (let g = filter (\<lambda>r. (fst r - origin) div freq = b) kept;
                           us = present (map (\<lambda>r. snd r u_col) g);
                           vs = present (map (\<lambda>r. snd r v_col) g);
                           ws = present (map (\<lambda>r. snd r w_col) g)
                       in if g = [] then None
                          else Some (rho * sqrt ((population_covariance us ws)\<^sup>2
                                                 + (population_covariance vs ws)\<^sup>2)))))
                    (bins freq (map fst kept)))\<rparr>"
proof -
  let ?kept = "filter (\<lambda>r. snd r u_col \<noteq> None \<and> snd r v_col \<noteq> None \<and> snd r w_col \<noteq> None) (rows df)"
  let ?df2 = "df\<lparr>columns := [u_col, v_col, w_col]\<rparr>"
  have sel: "getitem_list df [u_col, v_col, w_col] = Inr ?df2"
    using u v w by (simp add: getitem_list_def)
  have dn: "dropna ?df2 = ?df2\<lparr>rows := ?kept\<rparr>"
    by (simp add: dropna_def)
  have win: "compute_tau_window u_col v_col w_col rho (bucket_rows (?df2\<lparr>rows := ?kept\<rparr>) freq b) =
             (if filter (\<lambda>r. (fst r - start_day (map fst ?kept)) div freq = b) ?kept = [] then None
              else Some (rho * sqrt
                ((population_covariance
                    (present (map (\<lambda>r. snd r u_col) (filter (\<lambda>r. (fst r - start_day (map fst ?kept)) div freq = b) ?kept)))
                    (present (map (\<lambda>r. snd r w_col) (filter (\<lambda>r. (fst r - start_day (map fst ?kept)) div freq = b) ?kept))))\<^sup>2
                 + (population_covariance
                    (present (map (\<lambda>r. snd r v_col) (filter (\<lambda>r. (fst r - start_day (map fst ?kept)) div freq = b) ?kept)))
                    (present (map (\<lambda>r. snd r w_col) (filter (\<lambda>r. (fst r - start_day (map fst ?kept)) div freq = b) ?kept))))\<^sup>2)))" for b
  proof -
    let ?g = "filter (\<lambda>r. (fst r - start_day (map fst ?kept)) div freq = b) ?kept"
    have pu: "\<forall>r \<in> set ?g. snd r u_col \<noteq> None" and pv: "\<forall>r \<in> set ?g. snd r v_col \<noteq> None"
      and pw: "\<forall>r \<in> set ?g. snd r w_col \<noteq> None"
      by auto
    have br: "bucket_rows (?df2\<lparr>rows := ?kept\<rparr>) freq b = ?df2\<lparr>rows := ?g\<rparr>"
      by (simp add: bucket_rows_def index_def)
    have lu: "length (present (map (\<lambda>r. snd r u_col) ?g)) = length ?g"
      and lv: "length (present (map (\<lambda>r. snd r v_col) ?g)) = length ?g"
      and lw: "length (present (map (\<lambda>r. snd r w_col) ?g)) = length ?g"
      using present_length_complete [OF pu] present_length_complete [OF pv]
        present_length_complete [OF pw] by simp_all
    have e: "(present (map (\<lambda>r. snd r u_col) ?g) = []) = (?g = [])"
      "(present (map (\<lambda>r. snd r v_col) ?g) = []) = (?g = [])"
      "(present (map (\<lambda>r. snd r w_col) ?g) = []) = (?g = [])"
      using same_length_Nil [OF lu] same_length_Nil [OF lv] same_length_Nil [OF lw] by simp_all
    have uw: "compute_window_covariance u_col w_col (?df2\<lparr>rows := ?g\<rparr>) =
              (if ?g = [] then None else Some (population_covariance
                  (present (map (\<lambda>r. snd r u_col) ?g)) (present (map (\<lambda>r. snd r w_col) ?g))))"
      using window_covariance_complete [OF cells_complete [OF pu] cells_complete [OF pw]]
      by (simp only: e simp_thms)
    have vw: "compute_window_covariance v_col w_col (?df2\<lparr>rows := ?g\<rparr>) =
              (if ?g = [] then None else Some (population_covariance
                  (present (map (\<lambda>r. snd r v_col) ?g)) (present (map (\<lambda>r. snd r w_col) ?g))))"
      using window_covariance_complete [OF cells_complete [OF pv] cells_complete [OF pw]]
      by (simp only: e simp_thms)
    show ?thesis
      unfolding br compute_tau_window_covariances uw vw by simp
  qed
  have "(case getitem_list df [u_col, v_col, w_col] of
            Inl e \<Rightarrow> Inl e
          | Inr df2 \<Rightarrow>
              (case groupby_apply (dropna df2) freq (compute_tau_window u_col v_col w_col rho) of
                 Inl e \<Rightarrow> Inl e
               | Inr tau_series \<Rightarrow> Inr (tau_series\<lparr>name := Some ''tau_N_per_m2''\<rparr>))) =
        Inr (\<lparr>name = None,
                entries = map (\<lambda>b. (start_day (map fst ?kept) + b * freq, compute_tau_window u_col v_col w_col rho
                                 (bucket_rows (?df2\<lparr>rows := ?kept\<rparr>) freq b)))
                            (bins freq (map fst ?kept))\<rparr>\<lparr>name := Some ''tau_N_per_m2''\<rparr>)"
    using f by (simp add: sel dn groupby_apply_def index_def)
  then show ?thesis
    by (simp only: win) (simp add: Let_def)
qed


text \<open>
  Claim C5. For a table with the columns \<open>u\<close>, \<open>v\<close>, \<open>w\<close> and a positive bucket length,
  \<open>momentum_flux\<close> (and its copy \<open>_momentum_flux\<close> of flux.py) keeps the rows in which
  none of the three is missing, and for each time bucket of the kept rows (the buckets of
  the Grouper, counted from midnight of the day of the earliest kept row) returns
  \<open>rho * sqrt (cov_uw\<^sup>2 + cov_vw\<^sup>2)\<close>, where \<open>cov_uw\<close> and \<open>cov_vw\<close> are the population
  means of the products of the fluctuations about the bucket means (NaN for a bucket with
  no row); the result is named \<open>tau_N_per_m2\<close>. For \<open>u' = [1, -1]\<close>, \<open>w' = [1, -1]\<close>,
  \<open>v' = [0, 0]\<close> in one window the result is \<open>rho\<close>.
\<close>

theorem momentum_flux_tau:
  "(u_col \<in> set (columns df) \<longrightarrow> v_col \<in> set (columns df) \<longrightarrow> w_col \<in> set (columns df) \<longrightarrow>
    0 < freq \<longrightarrow>
      (let kept = filter (\<lambda>r. snd r u_col \<noteq> None \<and> snd r v_col \<noteq> None \<and> snd r w_col \<noteq> None) (rows df);
           origin = start_day (map fst kept);
           expected =
             Inr \<lparr>name = Some ''tau_N_per_m2'',
                  entries = map (\<lambda>b. (origin + b * freq,
                      (let g = filter (\<lambda>r. (fst r - origin) div freq = b) kept;
                           us = present (map (\<lambda>r. snd r u_col) g);
                           vs = present (map (\<lambda>r. snd r v_col) g);
                           ws = present (map (\<lambda>r. snd r w_col) g)
                       in if g = [] then None
                          else Some (rho * sqrt ((population_covariance us ws)\<^sup>2
                                                 + (population_covariance vs ws)\<^sup>2)))))
                    (bins freq (map fst kept))\<rparr>
       in momentum_flux df freq u_col v_col w_col rho = expected
          \<and> flux_momentum_flux df freq u_col v_col w_col rho = expected))
   \<and> momentum_flux momentum_table (60 * second) ''u'' ''v'' ''w'' rho0 =
       Inr \<lparr>name = Some ''tau_N_per_m2'', entries = [(0, Some rho0)]\<rparr>
   \<and> flux_momentum_flux momentum_table (60 * second) ''u'' ''v'' ''w'' rho0 =
       Inr \<lparr>name = Some ''tau_N_per_m2'', entries = [(0, Some rho0)]\<rparr>"
proof (intro conjI impI)
  assume "u_col \<in> set (columns df)" and "v_col \<in> set (columns df)" and "w_col \<in> set (columns df)"
    and "0 < freq"
  then show "let kept = filter (\<lambda>r. snd r u_col \<noteq> None \<and> snd r v_col \<noteq> None \<and> snd r w_col \<noteq> None) (rows df);
           origin = start_day (map fst kept);
           expected =
             Inr \<lparr>name = Some ''tau_N_per_m2'',
                  entries = map (\<lambda>b. (origin + b * freq,
                      (let g = filter (\<lambda>r. (fst r - origin) div freq = b) kept;
                           us = present (map (\<lambda>r. snd r u_col) g);
                           vs = present (map (\<lambda>r. snd r v_col) g);
                           ws = present (map (\<lambda>r. snd r w_col) g)
                       in if g = [] then None
                          else Some (rho * sqrt ((population_covariance us ws)\<^sup>2
                                                 + (population_covariance vs ws)\<^sup>2)))))
                    (bins freq (map fst kept))\<rparr>
       in momentum_flux df freq u_col v_col w_col rho = expected
          \<and> flux_momentum_flux df freq u_col v_col w_col rho = expected"
    unfolding momentum_flux_def flux_momentum_flux_def
    by (simp only: tau_series_buckets Let_def simp_thms)
next
  show "momentum_flux momentum_table (60 * second) ''u'' ''v'' ''w'' rho0 =
       Inr \<lparr>name = Some ''tau_N_per_m2'', entries = [(0, Some rho0)]\<rparr>"
    by (simp add: momentum_flux_def momentum_table_def getitem_list_def dropna_def groupby_apply_def
        bins_def start_day_def second_def ticks_per_day_def index_def bucket_rows_def
        compute_tau_window_def cells_def series_sub_def series_mean_def series_mul_def)
next
  show "flux_momentum_flux momentum_table (60 * second) ''u'' ''v'' ''w'' rho0 =
       Inr \<lparr>name = Some ''tau_N_per_m2'', entries = [(0, Some rho0)]\<rparr>"
    by (simp add: flux_momentum_flux_def momentum_table_def getitem_list_def dropna_def groupby_apply_def
        bins_def start_day_def second_def ticks_per_day_def index_def bucket_rows_def
        compute_tau_window_def cells_def series_sub_def series_mean_def series_mul_def)
qed

theorem momentum_flux_tau_witness:
  "''u'' \<in> set (columns wind_table) \<and> ''v'' \<in> set (columns wind_table)
   \<and> ''w'' \<in> set (columns wind_table) \<and> 0 < 60 * second
   \<and> momentum_flux wind_table (60 * second) ''u'' ''v'' ''w'' 2 =
       Inr \<lparr>name = Some ''tau_N_per_m2'', entries = [(0, Some 10), (60 * second, None), (120 * second, Some 0)]\<rparr>
   \<and> flux_momentum_flux wind_table (60 * second) ''u'' ''v'' ''w'' 2 =
       Inr \<lparr>name = Some ''tau_N_per_m2'', entries = [(0, Some 10), (60 * second, None), (120 * second, Some 0)]\<rparr>"
proof -
  have r: "sqrt 25 = 5"
    using real_sqrt_abs [of 5] by simp
  show ?thesis
    using momentum_flux_tau [where u_col = "''u''" and v_col = "''v''" and w_col = "''w''"
        and df = wind_table and freq = "60 * second" and rho = 2 and ?rho0.0 = 1]
    by (simp add: wind_table_def bins_def start_day_def second_def ticks_per_day_def population_covariance_def mean_def upto.simps r Let_def)
qed

section \<open>The selector of ecflux\<close>

lemma of_char_upper_char:
  "(of_char (upper_char c) :: nat) =
     (if 97 \<le> (of_char c :: nat) \<and> (of_char c :: nat) \<le> 122 then of_char c - 32 else of_char c)"
proof (cases "97 \<le> (of_char c :: nat) \<and> (of_char c :: nat) \<le> 122")
  case True
  then have "(of_char c :: nat) - 32 < 256" by linarith
  then have m: "((of_char c :: nat) - 32) mod 256 = of_char c - 32" by (rule mod_less)
  have "upper_char c = char_of ((of_char c :: nat) - 32)"
    unfolding upper_char_def using True by (rule if_P)
  then have "(of_char (upper_char c) :: nat) = of_char c - 32"
    using m by (simp only: of_char_of)
  then show ?thesis using True by (simp only: simp_thms if_True if_False)
next
  case False
  have "upper_char c = c"
    unfolding upper_char_def using False by (rule if_not_P)
  then show ?thesis using False by (simp only: simp_thms if_True if_False)
qed

lemma of_char_lower_char:
  "(of_char (lower_char c) :: nat) =
     (if 65 \<le> (of_char c :: nat) \<and> (of_char c :: nat) \<le> 90 then of_char c + 32 else of_char c)"
proof (cases "65 \<le> (of_char c :: nat) \<and> (of_char c :: nat) \<le> 90")
  case True
  then have "(of_char c :: nat) + 32 < 256" by linarith
  then have m: "((of_char c :: nat) + 32) mod 256 = of_char c + 32" by (rule mod_less)
  have "lower_char c = char_of ((of_char c :: nat) + 32)"
    unfolding lower_char_def using True by (rule if_P)
  then have "(of_char (lower_char c) :: nat) = of_char c + 32"
    using m by (simp only: of_char_of)
  then show ?thesis using True by (simp only: simp_thms if_True if_False)
next
  case False
  have "lower_char c = c"
    unfolding lower_char_def using False by (rule if_not_P)
  then show ?thesis using False by (simp only: simp_thms if_True if_False)
qed

lemma fold_case_nat:
  fixes n m :: nat
  shows "(if 65 \<le> n \<and> n \<le> 90 then n + 32 else n) = (if 65 \<le> m \<and> m \<le> 90 then m + 32 else m)
     \<longleftrightarrow> (if 97 \<le> n \<and> n \<le> 122 then n - 32 else n) = (if 97 \<le> m \<and> m \<le> 122 then m - 32 else m)"
  by (auto split: if_splits)

lemma lower_char_eq_upper_char_eq:
  "lower_char a = lower_char b \<longleftrightarrow> upper_char a = upper_char b"
proof -
  have "lower_char a = lower_char b \<longleftrightarrow> (of_char (lower_char a) :: nat) = of_char (lower_char b)"
    by simp
  also have "\<dots> \<longleftrightarrow> (of_char (upper_char a) :: nat) = of_char (upper_char b)"
    by (simp only: of_char_lower_char of_char_upper_char fold_case_nat)
  also have "\<dots> \<longleftrightarrow> upper_char a = upper_char b"
    by simp
  finally show ?thesis .
qed

lemma equal_ignoring_case_upper: "equal_ignoring_case s t \<longleftrightarrow> upper s = upper t"
  unfolding equal_ignoring_case_def upper_def
proof (induction s arbitrary: t)
  case Nil
  then show ?case by simp
next
  case (Cons a s)
  show ?case
  proof (cases t)
    case Nil
    then show ?thesis by simp
  next
    case (Cons b t')
    then show ?thesis
      using Cons.IH [of t'] by (simp add: lower_char_eq_upper_char_eq)
  qed
qed

lemma upper_selectors:
  "upper ''H'' = ''H''" "upper ''L'' = ''L''" "upper ''LE'' = ''LE''" "upper ''Tau'' = ''TAU''"
  "upper ''X'' = ''X''"
  by code_simp+

text \<open>
  Claim C2. A flux selector that is not equal, ignoring case, to \<open>H\<close>, \<open>L\<close>, \<open>LE\<close> or
  \<open>Tau\<close> makes \<open>ecflux\<close> fail with the unknown flux type error whatever the table and
  the other arguments are; for a selector equal to \<open>H\<close>, or to \<open>L\<close> or \<open>LE\<close>, ignoring
  case, a scalar argument of \<open>None\<close> makes it fail with the missing scalar error whatever
  the table is. In both cases the result is the error and no flux series. The selector
  \<open>X\<close> is refused.
\<close>

theorem ecflux_argument_errors:
  "(\<not> equal_ignoring_case flux ''H'' \<and> \<not> equal_ignoring_case flux ''L''
      \<and> \<not> equal_ignoring_case flux ''LE'' \<and> \<not> equal_ignoring_case flux ''Tau'' \<longrightarrow>
      ecflux raw_df w scalar flux freq rho cp Lv kwargs =
        Inl (ValueError (unknown_flux_message (upper flux))))
   \<and> (equal_ignoring_case flux ''H'' \<longrightarrow>
      ecflux raw_df w None flux freq rho cp Lv kwargs =
        Inl (ValueError ''scalar (temperature) must be specified for sensible heat flux''))
   \<and> (equal_ignoring_case flux ''L'' \<or> equal_ignoring_case flux ''LE'' \<longrightarrow>
      ecflux raw_df w None flux freq rho cp Lv kwargs =
        Inl (ValueError ''scalar (specific humidity) must be specified for latent heat flux''))
   \<and> ecflux raw_df w scalar ''X'' freq rho cp Lv kwargs =
        Inl (ValueError (unknown_flux_message ''X''))"
proof (intro conjI impI)
  assume "\<not> equal_ignoring_case flux ''H'' \<and> \<not> equal_ignoring_case flux ''L''
      \<and> \<not> equal_ignoring_case flux ''LE'' \<and> \<not> equal_ignoring_case flux ''Tau''"
  then have "upper flux \<noteq> ''H''" "upper flux \<noteq> ''L''" "upper flux \<noteq> ''LE''" "upper flux \<noteq> ''TAU''"
    by (simp_all only: equal_ignoring_case_upper upper_selectors simp_thms)
  then show "ecflux raw_df w scalar flux freq rho cp Lv kwargs =
        Inl (ValueError (unknown_flux_message (upper flux)))"
    by (simp add: ecflux_def Let_def)
next
  assume "equal_ignoring_case flux ''H''"
  then have "upper flux = ''H''"
    by (simp only: equal_ignoring_case_upper upper_selectors)
  then show "ecflux raw_df w None flux freq rho cp Lv kwargs =
        Inl (ValueError ''scalar (temperature) must be specified for sensible heat flux'')"
    by (simp add: ecflux_def Let_def)
next
  assume "equal_ignoring_case flux ''L'' \<or> equal_ignoring_case flux ''LE''"
  then have "upper flux = ''L'' \<or> upper flux = ''LE''"
    by (simp only: equal_ignoring_case_upper upper_selectors)
  then show "ecflux raw_df w None flux freq rho cp Lv kwargs =
        Inl (ValueError ''scalar (specific humidity) must be specified for latent heat flux'')"
    by (auto simp: ecflux_def Let_def)
next
  show "ecflux raw_df w scalar ''X'' freq rho cp Lv kwargs =
        Inl (ValueError (unknown_flux_message ''X''))"
    by (simp add: ecflux_def Let_def upper_selectors)
qed

theorem ecflux_argument_errors_witness:
  "(\<not> equal_ignoring_case ''co2'' ''H'' \<and> \<not> equal_ignoring_case ''co2'' ''L''
      \<and> \<not> equal_ignoring_case ''co2'' ''LE'' \<and> \<not> equal_ignoring_case ''co2'' ''Tau'')
   \<and> ecflux scenario_table ''w'' (Some ''T'') ''co2'' 60 1 1 1 Map.empty =
        Inl (ValueError (unknown_flux_message ''CO2''))
   \<and> equal_ignoring_case ''h'' ''H''
   \<and> ecflux scenario_table ''w'' None ''h'' 60 1 1 1 Map.empty =
        Inl (ValueError ''scalar (temperature) must be specified for sensible heat flux'')
   \<and> equal_ignoring_case ''Le'' ''LE''
   \<and> ecflux scenario_table ''w'' None ''Le'' 60 1 1 1 Map.empty =
        Inl (ValueError ''scalar (specific humidity) must be specified for latent heat flux'')"
proof -
  have u: "upper ''co2'' = ''CO2''"
    by code_simp
  have a: "\<not> equal_ignoring_case ''co2'' ''H'' \<and> \<not> equal_ignoring_case ''co2'' ''L''
      \<and> \<not> equal_ignoring_case ''co2'' ''LE'' \<and> \<not> equal_ignoring_case ''co2'' ''Tau''"
    by code_simp
  have b: "equal_ignoring_case ''h'' ''H''"
    by code_simp
  have c: "equal_ignoring_case ''Le'' ''LE''"
    by code_simp
  show ?thesis
    using ecflux_argument_errors [of "''co2''" scenario_table "''w''" "Some ''T''" 60 1 1 1 Map.empty]
      ecflux_argument_errors [of "''h''" scenario_table "''w''" "Some ''T''" 60 1 1 1 Map.empty]
      ecflux_argument_errors [of "''Le''" scenario_table "''w''" "Some ''T''" 60 1 1 1 Map.empty]
      a b c u
    by simp
qed

section \<open>Fluctuations\<close>

lemma series_sub_mean:
  "series_sub xs (series_mean xs) =
     map (\<lambda>x. case x of None \<Rightarrow> None | Some a \<Rightarrow> Some (a - mean (present xs))) xs"
proof (cases "present xs = []")
  case True
  then have "\<forall>x \<in> set xs. x = None"
    by (induction xs rule: present.induct) simp_all
  then show ?thesis using True
    by (auto simp: series_sub_def series_mean_def)
next
  case False
  then have "series_mean xs = Some (mean (present xs))"
    by (simp add: series_mean_def mean_def Let_def)
  then show ?thesis
    by (auto simp: series_sub_def split: option.splits)
qed

lemma length_series_sub: "length (series_sub xs m) = length xs"
  by (simp add: series_sub_def)

lemma setitem_rows_length:
  "length vals = length (rows dp) \<Longrightarrow> length (rows (setitem dp n vals)) = length (rows dp)"
  by (simp add: setitem_def)

lemma setitem_index:
  "length vals = length (rows dp) \<Longrightarrow> index (setitem dp n vals) = index dp"
proof -
  assume l: "length vals = length (rows dp)"
  have "map fst (map (\<lambda>(r, v). (fst r, (snd r)(n := v))) (zip (rows dp) vals))
        = map fst (map fst (zip (rows dp) vals))"
    by (simp add: case_prod_unfold)
  also have "\<dots> = map fst (rows dp)"
    using l by (simp only: map_fst_zip)
  finally show ?thesis by (simp add: setitem_def index_def)
qed


lemma setitem_cells_same:
  "length vals = length (rows dp) \<Longrightarrow> cells (setitem dp n vals) n = vals"
proof -
  assume l: "length vals = length (rows dp)"
  have "map (\<lambda>r. snd r n) (map (\<lambda>(r, v). (fst r, (snd r)(n := v))) (zip (rows dp) vals))
        = map snd (zip (rows dp) vals)"
    by (simp add: case_prod_unfold)
  also have "\<dots> = vals"
    using l by (simp only: map_snd_zip)
  finally show ?thesis by (simp add: setitem_def cells_def)
qed

lemma setitem_cells_other:
  assumes "length vals = length (rows dp)" and "m \<noteq> n"
  shows "cells (setitem dp n vals) m = cells dp m"
proof -
  have "map (\<lambda>r. snd r m) (map (\<lambda>(r, v). (fst r, (snd r)(n := v))) (zip (rows dp) vals))
        = map (\<lambda>r. snd r m) (map fst (zip (rows dp) vals))"
    using assms(2) by (simp add: case_prod_unfold)
  also have "\<dots> = map (\<lambda>r. snd r m) (rows dp)"
    using assms(1) by (simp only: map_fst_zip)
  finally show ?thesis by (simp add: setitem_def cells_def)
qed

lemma setitem_columns_set: "set (columns (setitem dp n vals)) = insert n (set (columns dp))"
  by (auto simp: setitem_def)

lemma setitem_columns_distinct:
  "distinct (columns dp) \<Longrightarrow> distinct (columns (setitem dp n vals))"
  by (simp add: setitem_def)

lemma fluctuations_loop_Inl:
  "(\<exists>c \<in> set cols. c \<notin> set (columns df)) \<Longrightarrow>
   \<exists>c \<in> set cols. c \<notin> set (columns df) \<and> fluctuations_loop df cols dp = Inl (ValueError (not_found_message c))"
  by (induction cols arbitrary: dp) auto

lemma fluctuations_loop_Inr:
  assumes "set cols \<subseteq> set (columns df)" and "length (rows dp) = length (rows df)"
  shows "\<exists>out. fluctuations_loop df cols dp = Inr out
           \<and> index out = index dp
           \<and> set (columns out) = set (columns dp) \<union> (\<lambda>c. c @ ''_prime'') ` set cols
           \<and> (distinct (columns dp) \<longrightarrow> distinct (columns out))
           \<and> (distinct cols \<and> (\<forall>c \<in> set cols. c @ ''_prime'' \<notin> set (columns dp)) \<longrightarrow>
                 columns out = columns dp @ map (\<lambda>c. c @ ''_prime'') cols)
           \<and> (\<forall>c \<in> set cols. cells out (c @ ''_prime'') =
                 series_sub (cells df c) (series_mean (cells df c)))
           \<and> (\<forall>m. m \<notin> (\<lambda>c. c @ ''_prime'') ` set cols \<longrightarrow> cells out m = cells dp m)"
  using assms
proof (induction cols arbitrary: dp)
  case Nil
  then show ?case by simp
next
  case (Cons col cols)
  let ?vals = "series_sub (cells df col) (series_mean (cells df col))"
  let ?dp = "setitem dp (col @ ''_prime'') ?vals"
  have lv: "length ?vals = length (rows dp)"
    using Cons.prems(2) by (simp add: length_series_sub cells_def)
  have l2: "length (rows ?dp) = length (rows df)"
    using setitem_rows_length [OF lv] Cons.prems(2) by simp
  have sub: "set cols \<subseteq> set (columns df)" and colin: "col \<in> set (columns df)"
    using Cons.prems(1) by simp_all
  from Cons.IH [OF sub l2] obtain out where
    r: "fluctuations_loop df cols ?dp = Inr out"
    and i: "index out = index ?dp"
    and cs: "set (columns out) = set (columns ?dp) \<union> (\<lambda>c. c @ ''_prime'') ` set cols"
    and d: "distinct (columns ?dp) \<longrightarrow> distinct (columns out)"
    and o: "distinct cols \<and> (\<forall>c \<in> set cols. c @ ''_prime'' \<notin> set (columns ?dp)) \<longrightarrow>
                 columns out = columns ?dp @ map (\<lambda>c. c @ ''_prime'') cols"
    and v: "\<forall>c \<in> set cols. cells out (c @ ''_prime'') =
                 series_sub (cells df c) (series_mean (cells df c))"
    and k: "\<forall>m. m \<notin> (\<lambda>c. c @ ''_prime'') ` set cols \<longrightarrow> cells out m = cells ?dp m"
    by blast
  have r': "fluctuations_loop df (col # cols) dp = Inr out"
    using r colin by simp
  have i': "index out = index dp"
    using i setitem_index [OF lv] by simp
  have cs': "set (columns out) = set (columns dp) \<union> (\<lambda>c. c @ ''_prime'') ` set (col # cols)"
    using cs by (auto simp: setitem_columns_set)
  have d': "distinct (columns dp) \<longrightarrow> distinct (columns out)"
    using d setitem_columns_distinct by blast
  have o': "distinct (col # cols) \<and> (\<forall>c \<in> set (col # cols). c @ ''_prime'' \<notin> set (columns dp)) \<longrightarrow>
                 columns out = columns dp @ map (\<lambda>c. c @ ''_prime'') (col # cols)"
  proof
    assume a: "distinct (col # cols) \<and> (\<forall>c \<in> set (col # cols). c @ ''_prime'' \<notin> set (columns dp))"
    then have "\<forall>c \<in> set cols. c @ ''_prime'' \<notin> set (columns ?dp)"
      by (auto simp: setitem_columns_set)
    then have "columns out = columns ?dp @ map (\<lambda>c. c @ ''_prime'') cols"
      using o a by simp
    moreover have "columns ?dp = columns dp @ [col @ ''_prime'']"
      using a by (simp add: setitem_def)
    ultimately show "columns out = columns dp @ map (\<lambda>c. c @ ''_prime'') (col # cols)"
      by simp
  qed
  have v': "\<forall>c \<in> set (col # cols). cells out (c @ ''_prime'') =
                 series_sub (cells df c) (series_mean (cells df c))"
  proof
    fix c assume c: "c \<in> set (col # cols)"
    show "cells out (c @ ''_prime'') = series_sub (cells df c) (series_mean (cells df c))"
    proof (cases "c \<in> set cols")
      case True
      then show ?thesis using v by blast
    next
      case False
      then have e: "c = col" using c by simp
      have "col @ ''_prime'' \<notin> (\<lambda>c. c @ ''_prime'') ` set cols"
        using False e by auto
      then have "cells out (col @ ''_prime'') = cells ?dp (col @ ''_prime'')"
        using k by blast
      then show ?thesis using e setitem_cells_same [OF lv] by simp
    qed
  qed
  have k': "\<forall>m. m \<notin> (\<lambda>c. c @ ''_prime'') ` set (col # cols) \<longrightarrow> cells out m = cells dp m"
  proof (intro allI impI)
    fix m assume m: "m \<notin> (\<lambda>c. c @ ''_prime'') ` set (col # cols)"
    then have "m \<notin> (\<lambda>c. c @ ''_prime'') ` set cols" and ne: "m \<noteq> col @ ''_prime''"
      by auto
    then have "cells out m = cells ?dp m" using k by blast
    then show "cells out m = cells dp m"
      using setitem_cells_other [OF lv ne] by simp
  qed
  show ?case
    using r' i' cs' d' o' v' k' by blast
qed


text \<open>
  Claim C6. For every table and every list of requested columns, \<open>fluctuations\<close> fails,
  with the error that names a column not found, if and only if some requested name is
  not a column of the table. When every requested name is a column, it returns a table on
  the same index with one column for each requested name, named by the name followed by
  \<open>_prime\<close> (\<open>u\<close> gives \<open>u_prime\<close>), in the order of the requests when these are
  distinct, whose cells are the cells of the input column minus the arithmetic mean of
  its present values (a missing cell stays missing).
\<close>

theorem fluctuations_unknown_column:
  "((\<exists>e. fluctuations df (Some cols) = Inl e) \<longleftrightarrow> (\<exists>c \<in> set cols. c \<notin> set (columns df)))
   \<and> ((\<exists>c \<in> set cols. c \<notin> set (columns df)) \<longrightarrow>
        (\<exists>c \<in> set cols. c \<notin> set (columns df)
           \<and> fluctuations df (Some cols) = Inl (ValueError (not_found_message c))))
   \<and> (set cols \<subseteq> set (columns df) \<longrightarrow>
        (\<exists>out. fluctuations df (Some cols) = Inr out
           \<and> index out = index df
           \<and> set (columns out) = (\<lambda>c. c @ ''_prime'') ` set cols
           \<and> distinct (columns out)
           \<and> (distinct cols \<longrightarrow> columns out = map (\<lambda>c. c @ ''_prime'') cols)
           \<and> (\<forall>c \<in> set cols. getitem out (c @ ''_prime'') =
                 Inr (map (\<lambda>x. case x of None \<Rightarrow> None
                                  | Some a \<Rightarrow> Some (a - mean (present (cells df c))))
                        (cells df c)))))"
proof -
  have ok: "\<exists>out. fluctuations df (Some cols) = Inr out
           \<and> index out = index df
           \<and> set (columns out) = (\<lambda>c. c @ ''_prime'') ` set cols
           \<and> distinct (columns out)
           \<and> (distinct cols \<longrightarrow> columns out = map (\<lambda>c. c @ ''_prime'') cols)
           \<and> (\<forall>c \<in> set cols. getitem out (c @ ''_prime'') =
                 Inr (map (\<lambda>x. case x of None \<Rightarrow> None
                                  | Some a \<Rightarrow> Some (a - mean (present (cells df c))))
                        (cells df c)))"
    if sub: "set cols \<subseteq> set (columns df)"
  proof -
    have l: "length (rows (empty_frame df)) = length (rows df)"
      by (simp add: empty_frame_def)
    from fluctuations_loop_Inr [OF sub l] obtain out where
      r: "fluctuations_loop df cols (empty_frame df) = Inr out"
      and i: "index out = index (empty_frame df)"
      and cs: "set (columns out) = set (columns (empty_frame df)) \<union> (\<lambda>c. c @ ''_prime'') ` set cols"
      and d: "distinct (columns (empty_frame df)) \<longrightarrow> distinct (columns out)"
      and o: "distinct cols \<and> (\<forall>c \<in> set cols. c @ ''_prime'' \<notin> set (columns (empty_frame df))) \<longrightarrow>
                 columns out = columns (empty_frame df) @ map (\<lambda>c. c @ ''_prime'') cols"
      and v: "\<forall>c \<in> set cols. cells out (c @ ''_prime'') =
                 series_sub (cells df c) (series_mean (cells df c))"
      by blast
    have e: "columns (empty_frame df) = []" "index (empty_frame df) = index df"
      by (simp_all add: empty_frame_def index_def comp_def)
    have g: "\<forall>c \<in> set cols. getitem out (c @ ''_prime'') =
                 Inr (map (\<lambda>x. case x of None \<Rightarrow> None
                                  | Some a \<Rightarrow> Some (a - mean (present (cells df c))))
                        (cells df c))"
    proof
      fix c assume c: "c \<in> set cols"
      then have "c @ ''_prime'' \<in> set (columns out)" using cs by blast
      then have "getitem out (c @ ''_prime'') = Inr (cells out (c @ ''_prime''))"
        by (simp add: getitem_def)
      then show "getitem out (c @ ''_prime'') =
                 Inr (map (\<lambda>x. case x of None \<Rightarrow> None
                                  | Some a \<Rightarrow> Some (a - mean (present (cells df c))))
                        (cells df c))"
        using v c by (simp only: series_sub_mean)
    qed
    have "fluctuations df (Some cols) = Inr out"
      using r by (simp add: fluctuations_def)
    moreover have "index out = index df" using i e by simp
    moreover have "set (columns out) = (\<lambda>c. c @ ''_prime'') ` set cols" using cs e by simp
    moreover have "distinct (columns out)" using d e by simp
    moreover have "distinct cols \<longrightarrow> columns out = map (\<lambda>c. c @ ''_prime'') cols"
      using o e by simp
    ultimately show ?thesis using g by blast
  qed
  have bad: "\<exists>c \<in> set cols. c \<notin> set (columns df)
           \<and> fluctuations df (Some cols) = Inl (ValueError (not_found_message c))"
    if "\<exists>c \<in> set cols. c \<notin> set (columns df)"
    using fluctuations_loop_Inl [OF that, of "empty_frame df"] by (simp add: fluctuations_def)
  have iff: "(\<exists>e. fluctuations df (Some cols) = Inl e) \<longleftrightarrow> (\<exists>c \<in> set cols. c \<notin> set (columns df))"
  proof
    assume "\<exists>e. fluctuations df (Some cols) = Inl e"
    then have "\<not> set cols \<subseteq> set (columns df)"
      using ok by fastforce
    then show "\<exists>c \<in> set cols. c \<notin> set (columns df)" by blast
  next
    assume "\<exists>c \<in> set cols. c \<notin> set (columns df)"
    then show "\<exists>e. fluctuations df (Some cols) = Inl e"
      using bad by blast
  qed
  show ?thesis
    using iff bad ok by blast
qed

theorem fluctuations_unknown_column_witness:
  "set [''u'', ''v''] \<subseteq> set (columns wind_table)
   \<and> (\<exists>out. fluctuations wind_table (Some [''u'', ''v'']) = Inr out
         \<and> columns out = [''u_prime'', ''v_prime'']
         \<and> getitem out ''u_prime'' = Inr [Some (- 9 / 4), Some (15 / 4), Some (- 5 / 4), Some (- 1 / 4)]
         \<and> getitem out ''v_prime'' = Inr [Some (- 8 / 3), Some (16 / 3), None, Some (- 8 / 3)])
   \<and> ''q'' \<notin> set (columns wind_table)
   \<and> fluctuations wind_table (Some [''u'', ''q'']) = Inl (ValueError (not_found_message ''q''))"
proof -
  have c: "set [''u'', ''v''] \<subseteq> set (columns wind_table)" "''q'' \<notin> set (columns wind_table)"
    "''u'' \<in> set (columns wind_table)"
    by (simp_all add: wind_table_def)
  have cu: "cells wind_table ''u'' = [Some 1, Some 7, Some 2, Some 3]"
    and cv: "cells wind_table ''v'' = [Some 4, Some 12, None, Some 4]"
    by (simp_all add: wind_table_def cells_def)
  have d: "distinct [''u'', ''v'']" by simp
  from fluctuations_unknown_column [of wind_table "[''u'', ''v'']"] c(1)
  obtain out where r: "fluctuations wind_table (Some [''u'', ''v'']) = Inr out"
    and o: "distinct [''u'', ''v''] \<longrightarrow> columns out = map (\<lambda>c. c @ ''_prime'') [''u'', ''v'']"
    and g: "\<forall>c \<in> set [''u'', ''v'']. getitem out (c @ ''_prime'') =
                 Inr (map (\<lambda>x. case x of None \<Rightarrow> None
                                  | Some a \<Rightarrow> Some (a - mean (present (cells wind_table c))))
                        (cells wind_table c))"
    by blast
  have o': "columns out = [''u_prime'', ''v_prime'']"
    using o d by simp
  have gu: "getitem out ''u_prime'' = Inr [Some (- 9 / 4), Some (15 / 4), Some (- 5 / 4), Some (- 1 / 4)]"
    using g by (simp add: cu cv mean_def)
  have gv: "getitem out ''v_prime'' = Inr [Some (- 8 / 3), Some (16 / 3), None, Some (- 8 / 3)]"
    using g by (simp add: cu cv mean_def)
  have "\<exists>c \<in> set [''u'', ''q'']. c \<notin> set (columns wind_table)"
    using c(2) by simp
  with fluctuations_unknown_column [of wind_table "[''u'', ''q'']"]
  obtain c' where "c' \<in> set [''u'', ''q'']" and "c' \<notin> set (columns wind_table)"
    and e: "fluctuations wind_table (Some [''u'', ''q'']) = Inl (ValueError (not_found_message c'))"
    by blast
  then have "c' = ''q''" using c(3) by auto
  then have e': "fluctuations wind_table (Some [''u'', ''q'']) = Inl (ValueError (not_found_message ''q''))"
    using e by simp
  show ?thesis
    using c(1,2) r o' gu gv e' by blast
qed

section \<open>Fixed-count windows of tke\<close>

text \<open>The value of one full window, when the three labels are columns.\<close>

lemma tke_window_columns:
  assumes "u \<in> set (columns window)" and "v \<in> set (columns window)" and "w \<in> set (columns window)"
  shows "tke_window window u v w = Inr (tke_value window u v w)"
  using assms by (simp add: tke_window_def tke_value_def getitem_def Let_def)

lemma iloc_rows: "iloc df i (i + k) = df\<lparr>rows := take k (drop i (rows df))\<rparr>"
  by (simp add: iloc_def)

declare tke_loop.simps [simp del]

lemma tke_loop_step_full:
  assumes "0 < k" and "i + k \<le> len df"
    and "tke_window (df\<lparr>rows := take k (drop i (rows df))\<rparr>) u v w = Inr x"
  shows "tke_loop df k u v w i xs ts =
         tke_loop df k u v w (i + k) (xs @ [x]) (ts @ [index df ! (i + k div 2)])"
proof -
  have l: "len (df\<lparr>rows := take k (drop i (rows df))\<rparr>) = k"
    using assms(2) by (simp add: len_def)
  have "k div 2 < k" using assms(1) by simp
  then have n: "index (df\<lparr>rows := take k (drop i (rows df))\<rparr>) ! (k div 2) = index df ! (i + k div 2)"
    using assms(2) by (simp add: index_def len_def)
  have c: "\<not> (k = 0 \<or> len df \<le> i)" using assms(1,2) by simp
  show ?thesis
    by (subst tke_loop.simps) (simp only: c iloc_rows l assms(3) n Let_def if_False less_irrefl sum.case)
qed

lemma tke_loop_step_end:
  assumes "0 < k" and "len df < i + k"
  shows "tke_loop df k u v w i xs ts = Inr (xs, ts)"
proof (cases "len df \<le> i")
  case True
  then show ?thesis by (subst tke_loop.simps) simp
next
  case False
  then have c: "\<not> (k = 0 \<or> len df \<le> i)" using assms(1) by simp
  have l: "len (df\<lparr>rows := take k (drop i (rows df))\<rparr>) < k"
    using assms(2) False by (simp add: len_def)
  have "len df \<le> i + k" using assms(2) by simp
  then have e: "tke_loop df k u v w (i + k) xs ts = Inr (xs, ts)"
    by (subst tke_loop.simps) simp
  show ?thesis
    by (subst tke_loop.simps) (simp only: c iloc_rows l e Let_def if_False if_True)
qed


lemma tke_loop_windows:
  assumes k: "0 < k"
    and c: "u \<in> set (columns df)" "v \<in> set (columns df)" "w \<in> set (columns df)"
  shows "tke_loop df k u v w (j * k) xs ts =
     Inr (xs @ map (\<lambda>m. tke_value (df\<lparr>rows := take k (drop (m * k) (rows df))\<rparr>) u v w)
                 [j..<len df div k],
          ts @ map (\<lambda>m. index df ! (m * k + k div 2)) [j..<len df div k])"
proof (induction "len df div k - j" arbitrary: j xs ts)
  case 0
  then have le: "len df div k \<le> j" by simp
  have a: "(len df div k) * k \<le> j * k" using le by (rule mult_le_mono1)
  have "len df < k + k * (len df div k)"
    using k by (rule dividend_less_times_div)
  then have b: "len df < k + (len df div k) * k" by (simp only: mult.commute)
  from a b have "len df < j * k + k" by linarith
  then show ?case
    using 0 tke_loop_step_end [OF k, of df "j * k" u v w xs ts] by simp
next
  case (Suc n)
  then have j: "j < len df div k" by simp
  then have "Suc j \<le> len df div k" by simp
  then have "Suc j * k \<le> (len df div k) * k" by (rule mult_le_mono1)
  also have "\<dots> \<le> len df" by simp
  finally have full: "j * k + k \<le> len df" by simp
  have win: "tke_window (df\<lparr>rows := take k (drop (j * k) (rows df))\<rparr>) u v w =
             Inr (tke_value (df\<lparr>rows := take k (drop (j * k) (rows df))\<rparr>) u v w)"
    using c by (simp add: tke_window_columns)
  have n: "n = len df div k - Suc j" using Suc.hyps(2) by simp
  have "tke_loop df k u v w (j * k) xs ts =
        tke_loop df k u v w (Suc j * k)
          (xs @ [tke_value (df\<lparr>rows := take k (drop (j * k) (rows df))\<rparr>) u v w])
          (ts @ [index df ! (j * k + k div 2)])"
    using tke_loop_step_full [OF k full win, of xs ts] by (simp add: add.commute)
  then show ?case
    using Suc.hyps(1) [OF n] j by (simp add: upt_conv_Cons)
qed


lemma tke_result:
  assumes "1 \<le> window_size"
    and "u \<in> set (columns df)" "v \<in> set (columns df)" "w \<in> set (columns df)"
  shows "tke df window_size u v w =
     Inr (map (\<lambda>m. tke_value (df\<lparr>rows := take (nat window_size) (drop (m * nat window_size) (rows df))\<rparr>) u v w)
              [0..<len df div nat window_size],
          map (\<lambda>m. index df ! (m * nat window_size + nat window_size div 2))
              [0..<len df div nat window_size])"
    and "tke_module_tke df window_size u v w = tke df window_size u v w"
proof -
  have k: "0 < nat window_size" using assms(1) by simp
  show "tke df window_size u v w =
     Inr (map (\<lambda>m. tke_value (df\<lparr>rows := take (nat window_size) (drop (m * nat window_size) (rows df))\<rparr>) u v w)
              [0..<len df div nat window_size],
          map (\<lambda>m. index df ! (m * nat window_size + nat window_size div 2))
              [0..<len df div nat window_size])"
    using assms(1) tke_loop_windows [OF k assms(2-4), of 0 "[]" "[]"]
    by (simp add: tke_def)
  show "tke_module_tke df window_size u v w = tke df window_size u v w"
    by (simp add: tke_def tke_module_tke_def)
qed

text \<open>
  Claim C3. For a table of \<open>N\<close> rows with the three wind columns and a window size
  \<open>k \<ge> 1\<close>, \<open>tke\<close> (of flux.py, and its copy of tke.py) returns two lists of the same
  length \<open>N div k\<close>: entry \<open>i\<close> is computed from the rows \<open>i * k\<close> up to \<open>i * k + k\<close> of
  the table, the windows do not overlap, the rows after the last full window are not
  used, and timestamp \<open>i\<close> is the index value at offset \<open>k div 2\<close> of window \<open>i\<close>.
\<close>

theorem tke_fixed_count_windows:
  assumes "1 \<le> window_size"
    and "u \<in> set (columns df)" and "v \<in> set (columns df)" and "w \<in> set (columns df)"
  shows "\<exists>tke_list time_midpoints.
           tke df window_size u v w = Inr (tke_list, time_midpoints)
         \<and> tke_module_tke df window_size u v w = Inr (tke_list, time_midpoints)
         \<and> length tke_list = len df div nat window_size
         \<and> length time_midpoints = len df div nat window_size
         \<and> (\<forall>i < len df div nat window_size.
               time_midpoints ! i = index df ! (i * nat window_size + nat window_size div 2)
             \<and> tke_window (df\<lparr>rows := take (nat window_size) (drop (i * nat window_size) (rows df))\<rparr>) u v w
                 = Inr (tke_list ! i))"
proof -
  let ?k = "nat window_size"
  let ?xs = "map (\<lambda>m. tke_value (df\<lparr>rows := take ?k (drop (m * ?k) (rows df))\<rparr>) u v w) [0..<len df div ?k]"
  let ?ts = "map (\<lambda>m. index df ! (m * ?k + ?k div 2)) [0..<len df div ?k]"
  have r: "tke df window_size u v w = Inr (?xs, ?ts)"
    and r': "tke_module_tke df window_size u v w = Inr (?xs, ?ts)"
    using tke_result [OF assms] by simp_all
  have w: "tke_window (df\<lparr>rows := take ?k (drop (i * ?k) (rows df))\<rparr>) u v w = Inr (?xs ! i)"
    if "i < len df div ?k" for i
    using that assms(2-4) by (simp add: tke_window_columns)
  have t: "?ts ! i = index df ! (i * ?k + ?k div 2)" if "i < len df div ?k" for i
    using that by simp
  have "length ?xs = len df div ?k" "length ?ts = len df div ?k" by simp_all
  then show ?thesis using r r' w t by blast
qed

lemma singleton_nth: "length xs = Suc 0 \<Longrightarrow> xs = [xs ! 0]"
  by (cases xs) simp_all

theorem tke_fixed_count_windows_witness:
  "(1::int) \<le> 4 \<and> ''u'' \<in> set (columns tke_table) \<and> ''v'' \<in> set (columns tke_table)
   \<and> ''w'' \<in> set (columns tke_table) \<and> len tke_table = 6
   \<and> tke tke_table 4 ''u'' ''v'' ''w'' = Inr ([Some (25 / 6)], [2])
   \<and> tke_module_tke tke_table 4 ''u'' ''v'' ''w'' = Inr ([Some (25 / 6)], [2])"
proof -
  have c: "''u'' \<in> set (columns tke_table)" "''v'' \<in> set (columns tke_table)"
    "''w'' \<in> set (columns tke_table)"
    by (simp_all add: tke_table_def)
  have n: "len tke_table = 6" "len tke_table div nat 4 = Suc 0"
    by (simp_all add: tke_table_def len_def)
  have one: "(1::int) \<le> 4" by simp
  from tke_fixed_count_windows [OF one c] obtain xs ts where
    r: "tke tke_table 4 ''u'' ''v'' ''w'' = Inr (xs, ts)"
    and r': "tke_module_tke tke_table 4 ''u'' ''v'' ''w'' = Inr (xs, ts)"
    and lx: "length xs = len tke_table div nat 4" and lt: "length ts = len tke_table div nat 4"
    and a: "\<forall>i < len tke_table div nat 4.
               ts ! i = index tke_table ! (i * nat 4 + nat 4 div 2)
             \<and> tke_window (tke_table\<lparr>rows := take (nat 4) (drop (i * nat 4) (rows tke_table))\<rparr>) ''u'' ''v'' ''w''
                 = Inr (xs ! i)"
    by blast
  have t0: "ts ! 0 = index tke_table ! (0 * nat 4 + nat 4 div 2)"
    and w0: "tke_window (tke_table\<lparr>rows := take (nat 4) (drop (0 * nat 4) (rows tke_table))\<rparr>) ''u'' ''v'' ''w''
                 = Inr (xs ! 0)"
    using a n(2) by simp_all
  have "ts ! 0 = 2"
    using t0 by (simp add: tke_table_def index_def)
  then have ts: "ts = [2]" using singleton_nth [of ts] lt n(2) by simp
  have "tke_window (tke_table\<lparr>rows := take (nat 4) (drop (0 * nat 4) (rows tke_table))\<rparr>) ''u'' ''v'' ''w''
        = Inr (Some (25 / 6))"
    by (simp add: tke_table_def tke_window_def getitem_def cells_def series_sub_def series_mean_def
        series_var_ddof1_def Let_def power2_eq_square)
  then have "xs ! 0 = Some (25 / 6)" using w0 by simp
  then have xs: "xs = [Some (25 / 6)]" using singleton_nth [of xs] lx n(2) by simp
  show ?thesis using one c n(1) r r' xs ts by simp
qed

section \<open>The kinetic energy of a window\<close>

lemma present_shift:
  "present (map (\<lambda>x. case x of None \<Rightarrow> None | Some a \<Rightarrow> Some (a - m)) xs) =
     map (\<lambda>y. y - m) (present xs)"
  by (induction xs rule: present.induct) simp_all

lemma series_var_ddof1_fluctuations:
  "series_var_ddof1 (series_sub xs (series_mean xs)) =
     (if 2 \<le> length (present xs)
      then Some (sample_variance (map (\<lambda>y. y - mean (present xs)) (present xs)))
      else None)"
proof -
  let ?ds = "map (\<lambda>y. y - mean (present xs)) (present xs)"
  have p: "present (series_sub xs (series_mean xs)) = ?ds"
    by (simp only: series_sub_mean present_shift)
  have s: "(\<Sum>d\<leftarrow>?ds. (sum_list ?ds / real (length ?ds) - d)\<^sup>2) = (\<Sum>d\<leftarrow>?ds. (d - mean ?ds)\<^sup>2)"
    by (simp add: mean_def power2_commute)
  show ?thesis
  proof (cases "2 \<le> length (present xs)")
    case True
    then have "\<not> length ?ds \<le> 1" by simp
    then show ?thesis
      using True s unfolding series_var_ddof1_def p Let_def sample_variance_def
      by (simp only: if_False if_True)
  next
    case False
    then have "length ?ds \<le> 1" by simp
    then show ?thesis
      using False unfolding series_var_ddof1_def p Let_def
      by (simp only: if_False if_True)
  qed
qed

lemma sum_list_shift:
  "sum_list (map (\<lambda>y. y - c) ys) = sum_list ys - real (length ys) * (c::real)"
  by (induction ys) (simp_all add: algebra_simps)

lemma mean_shift: "ys \<noteq> [] \<Longrightarrow> mean (map (\<lambda>y. y - c) ys) = mean ys - c"
  by (simp add: mean_def sum_list_shift diff_divide_distrib)

lemma sample_variance_shift: "sample_variance (map (\<lambda>y. y - c) ys) = sample_variance ys"
proof (cases "ys = []")
  case True
  then show ?thesis by (simp add: sample_variance_def)
next
  case False
  then show ?thesis
    by (simp add: sample_variance_def mean_shift comp_def)
qed

lemma tke_value_sample_variances:
  "tke_value window u v w =
     (let us = present (cells window u);
          vs = present (cells window v);
          ws = present (cells window w);
          u_prime = map (\<lambda>y. y - mean us) us;
          v_prime = map (\<lambda>y. y - mean vs) vs;
          w_prime = map (\<lambda>y. y - mean ws) ws
      in if 2 \<le> length us \<and> 2 \<le> length vs \<and> 2 \<le> length ws
         then Some (1 / 2 * (sample_variance u_prime + sample_variance v_prime
                             + sample_variance w_prime))
         else None)"
  unfolding tke_value_def series_var_ddof1_fluctuations Let_def
  by simp


text \<open>
  Claim C4. For every full window, \<open>tke\<close> takes the fluctuations of \<open>u\<close>, \<open>v\<close>, \<open>w\<close>
  about the window means and returns half the sum of their sample variances, each with
  the Bessel correction: the sum of the squared deviations divided by \<open>n - 1\<close>, where \<open>n\<close>
  counts the present values of the column in the window (the window size when none is
  missing); the result is NaN when a column has fewer than two present values. The
  sample variance of the fluctuations is that of the values. With \<open>window_size = 4\<close> and
  \<open>u = [1, 1, 1, 1]\<close> the \<open>u\<close> component contributes 0 and the result is half the sum of
  the variances of \<open>v\<close> and \<open>w\<close>.
\<close>

theorem tke_half_sum_of_sample_variances:
  "(1 \<le> window_size \<longrightarrow> u \<in> set (columns df) \<longrightarrow> v \<in> set (columns df) \<longrightarrow>
    w \<in> set (columns df) \<longrightarrow>
      (\<exists>tke_list time_midpoints.
          tke df window_size u v w = Inr (tke_list, time_midpoints)
        \<and> (\<forall>i < len df div nat window_size.
             (let window = df\<lparr>rows := take (nat window_size) (drop (i * nat window_size) (rows df))\<rparr>;
                  us = present (cells window u);
                  vs = present (cells window v);
                  ws = present (cells window w);
                  u_prime = map (\<lambda>y. y - mean us) us;
                  v_prime = map (\<lambda>y. y - mean vs) vs;
                  w_prime = map (\<lambda>y. y - mean ws) ws
              in tke_list ! i =
                   (if 2 \<le> length us \<and> 2 \<le> length vs \<and> 2 \<le> length ws
                    then Some (1 / 2 * (sample_variance u_prime + sample_variance v_prime
                                        + sample_variance w_prime))
                    else None)
                 \<and> sample_variance u_prime = sample_variance us
                 \<and> sample_variance v_prime = sample_variance vs
                 \<and> sample_variance w_prime = sample_variance ws))))
   \<and> tke tke_table 4 ''u'' ''v'' ''w'' =
       Inr ([Some (1 / 2 * (sample_variance [1, 2, 3, 4] + sample_variance [2, 4, 6, 8]))], [2])
   \<and> sample_variance (map (\<lambda>y. y - mean [1, 1, 1, 1]) [1, 1, 1, 1]) = 0"
proof (intro conjI impI)
  assume a: "1 \<le> window_size" "u \<in> set (columns df)" "v \<in> set (columns df)" "w \<in> set (columns df)"
  let ?k = "nat window_size"
  let ?xs = "map (\<lambda>m. tke_value (df\<lparr>rows := take ?k (drop (m * ?k) (rows df))\<rparr>) u v w) [0..<len df div ?k]"
  let ?ts = "map (\<lambda>m. index df ! (m * ?k + ?k div 2)) [0..<len df div ?k]"
  have r: "tke df window_size u v w = Inr (?xs, ?ts)"
    using tke_result(1) [OF a] .
  have "\<forall>i < len df div ?k.
             (let window = df\<lparr>rows := take ?k (drop (i * ?k) (rows df))\<rparr>;
                  us = present (cells window u);
                  vs = present (cells window v);
                  ws = present (cells window w);
                  u_prime = map (\<lambda>y. y - mean us) us;
                  v_prime = map (\<lambda>y. y - mean vs) vs;
                  w_prime = map (\<lambda>y. y - mean ws) ws
              in ?xs ! i =
                   (if 2 \<le> length us \<and> 2 \<le> length vs \<and> 2 \<le> length ws
                    then Some (1 / 2 * (sample_variance u_prime + sample_variance v_prime
                                        + sample_variance w_prime))
                    else None)
                 \<and> sample_variance u_prime = sample_variance us
                 \<and> sample_variance v_prime = sample_variance vs
                 \<and> sample_variance w_prime = sample_variance ws)"
  proof (intro allI impI)
    fix i assume i: "i < len df div ?k"
    have x: "?xs ! i = tke_value (df\<lparr>rows := take ?k (drop (i * ?k) (rows df))\<rparr>) u v w"
      using i by simp
    show "let window = df\<lparr>rows := take ?k (drop (i * ?k) (rows df))\<rparr>;
                  us = present (cells window u);
                  vs = present (cells window v);
                  ws = present (cells window w);
                  u_prime = map (\<lambda>y. y - mean us) us;
                  v_prime = map (\<lambda>y. y - mean vs) vs;
                  w_prime = map (\<lambda>y. y - mean ws) ws
              in ?xs ! i =
                   (if 2 \<le> length us \<and> 2 \<le> length vs \<and> 2 \<le> length ws
                    then Some (1 / 2 * (sample_variance u_prime + sample_variance v_prime
                                        + sample_variance w_prime))
                    else None)
                 \<and> sample_variance u_prime = sample_variance us
                 \<and> sample_variance v_prime = sample_variance vs
                 \<and> sample_variance w_prime = sample_variance ws"
      unfolding x
      unfolding tke_value_sample_variances Let_def sample_variance_shift
      by simp
  qed
  then show "\<exists>tke_list time_midpoints.
          tke df window_size u v w = Inr (tke_list, time_midpoints)
        \<and> (\<forall>i < len df div nat window_size.
             (let window = df\<lparr>rows := take (nat window_size) (drop (i * nat window_size) (rows df))\<rparr>;
                  us = present (cells window u);
                  vs = present (cells window v);
                  ws = present (cells window w);
                  u_prime = map (\<lambda>y. y - mean us) us;
                  v_prime = map (\<lambda>y. y - mean vs) vs;
                  w_prime = map (\<lambda>y. y - mean ws) ws
              in tke_list ! i =
                   (if 2 \<le> length us \<and> 2 \<le> length vs \<and> 2 \<le> length ws
                    then Some (1 / 2 * (sample_variance u_prime + sample_variance v_prime
                                        + sample_variance w_prime))
                    else None)
                 \<and> sample_variance u_prime = sample_variance us
                 \<and> sample_variance v_prime = sample_variance vs
                 \<and> sample_variance w_prime = sample_variance ws))"
    using r by blast
next
  have c: "''u'' \<in> set (columns tke_table)" "''v'' \<in> set (columns tke_table)"
    "''w'' \<in> set (columns tke_table)"
    by (simp_all add: tke_table_def)
  have n: "len tke_table div nat 4 = Suc 0"
    by (simp add: tke_table_def len_def)
  have one: "(1::int) \<le> 4" by simp
  have v: "tke_value (tke_table\<lparr>rows := take (nat 4) (drop (0 * nat 4) (rows tke_table))\<rparr>) ''u'' ''v'' ''w''
        = Some (1 / 2 * (sample_variance [1, 2, 3, 4] + sample_variance [2, 4, 6, 8]))"
    by (simp add: tke_value_sample_variances tke_table_def cells_def sample_variance_def mean_def
        Let_def power2_eq_square)
  have t: "index tke_table ! (0 * nat 4 + nat 4 div 2) = 2"
    by (simp add: tke_table_def index_def)
  show "tke tke_table 4 ''u'' ''v'' ''w'' =
       Inr ([Some (1 / 2 * (sample_variance [1, 2, 3, 4] + sample_variance [2, 4, 6, 8]))], [2])"
    unfolding tke_result(1) [OF one c] n using v t by simp
next
  show "sample_variance (map (\<lambda>y. y - mean [1, 1, 1, 1]) [1, 1, 1, 1]) = 0"
    by (simp add: sample_variance_def mean_def)
qed

theorem tke_half_sum_of_sample_variances_witness:
  "(1::int) \<le> 2 \<and> ''u'' \<in> set (columns tke_table) \<and> ''v'' \<in> set (columns tke_table)
   \<and> ''w'' \<in> set (columns tke_table) \<and> 2 < len tke_table div nat 2
   \<and> (\<exists>tke_list time_midpoints.
         tke tke_table 2 ''u'' ''v'' ''w'' = Inr (tke_list, time_midpoints)
         \<and> tke_list ! 2 = Some (27 / 4))"
proof -
  have c: "''u'' \<in> set (columns tke_table)" "''v'' \<in> set (columns tke_table)"
    "''w'' \<in> set (columns tke_table)"
    by (simp_all add: tke_table_def)
  have n: "2 < len tke_table div nat 2"
    by (simp add: tke_table_def len_def)
  have one: "(1::int) \<le> 2" by simp
  from tke_half_sum_of_sample_variances [of 2 "''u''" tke_table "''v''" "''w''"] one c
  obtain xs ts where r: "tke tke_table 2 ''u'' ''v'' ''w'' = Inr (xs, ts)"
    and a: "\<forall>i < len tke_table div nat 2.
             (let window = tke_table\<lparr>rows := take (nat 2) (drop (i * nat 2) (rows tke_table))\<rparr>;
                  us = present (cells window ''u'');
                  vs = present (cells window ''v'');
                  ws = present (cells window ''w'');
                  u_prime = map (\<lambda>y. y - mean us) us;
                  v_prime = map (\<lambda>y. y - mean vs) vs;
                  w_prime = map (\<lambda>y. y - mean ws) ws
              in xs ! i =
                   (if 2 \<le> length us \<and> 2 \<le> length vs \<and> 2 \<le> length ws
                    then Some (1 / 2 * (sample_variance u_prime + sample_variance v_prime
                                        + sample_variance w_prime))
                    else None)
                 \<and> sample_variance u_prime = sample_variance us
                 \<and> sample_variance v_prime = sample_variance vs
                 \<and> sample_variance w_prime = sample_variance ws)"
    by blast
  from a n have "let window = tke_table\<lparr>rows := take (nat 2) (drop (2 * nat 2) (rows tke_table))\<rparr>;
                  us = present (cells window ''u'');
                  vs = present (cells window ''v'');
                  ws = present (cells window ''w'');
                  u_prime = map (\<lambda>y. y - mean us) us;
                  v_prime = map (\<lambda>y. y - mean vs) vs;
                  w_prime = map (\<lambda>y. y - mean ws) ws
              in xs ! 2 =
                   (if 2 \<le> length us \<and> 2 \<le> length vs \<and> 2 \<le> length ws
                    then Some (1 / 2 * (sample_variance u_prime + sample_variance v_prime
                                        + sample_variance w_prime))
                    else None)
                 \<and> sample_variance u_prime = sample_variance us
                 \<and> sample_variance v_prime = sample_variance vs
                 \<and> sample_variance w_prime = sample_variance ws"
    by blast
  then have "xs ! 2 = Some (27 / 4)"
    by (simp add: tke_table_def cells_def sample_variance_def mean_def Let_def power2_eq_square)
  then show ?thesis using one c n r by blast
qed

section \<open>Bins\<close>

lemma fold_min_le: "t \<in> set (t0 # ts) \<Longrightarrow> fold min ts (t0::int) \<le> t"
proof -
  assume t: "t \<in> set (t0 # ts)"
  have "fold min ts t0 = Min (set (t0 # ts))" by (rule Min.set_eq_fold [symmetric])
  then show ?thesis using t by (simp only: Min_le [OF finite_set])
qed

lemma fold_max_ge: "t \<in> set (t0 # ts) \<Longrightarrow> t \<le> fold max ts (t0::int)"
proof -
  assume t: "t \<in> set (t0 # ts)"
  have "fold max ts t0 = Max (set (t0 # ts))" by (rule Max.set_eq_fold [symmetric])
  then show ?thesis using t by (simp only: Max_ge [OF finite_set])
qed

lemma fold_min_in: "fold min ts (t0::int) \<in> set (t0 # ts)"
proof -
  have "fold min ts t0 = Min (set (t0 # ts))" by (rule Min.set_eq_fold [symmetric])
  moreover have "Min (set (t0 # ts)) \<in> set (t0 # ts)" by (rule Min_in) simp_all
  ultimately show ?thesis by simp
qed

lemma fold_max_in: "fold max ts (t0::int) \<in> set (t0 # ts)"
proof -
  have "fold max ts t0 = Max (set (t0 # ts))" by (rule Max.set_eq_fold [symmetric])
  moreover have "Max (set (t0 # ts)) \<in> set (t0 # ts)" by (rule Max_in) simp_all
  ultimately show ?thesis by simp
qed

lemma bins_Cons:
  "bins freq (t0 # ts') =
     [(fold min ts' t0 - start_day (t0 # ts')) div freq .. (fold max ts' t0 - start_day (t0 # ts')) div freq]"
  by (simp add: bins_def)

lemma bins_member:
  assumes "t \<in> set ts" and "0 < freq"
  shows "(t - start_day ts) div freq \<in> set (bins freq ts)"
proof (cases ts)
  case Nil
  then show ?thesis using assms by simp
next
  case (Cons t0 ts')
  then have "fold min ts' t0 - start_day ts \<le> t - start_day ts"
    and "t - start_day ts \<le> fold max ts' t0 - start_day ts"
    using assms(1) fold_min_le [of t t0 ts'] fold_max_ge [of t t0 ts'] by simp_all
  then have "(fold min ts' t0 - start_day ts) div freq \<le> (t - start_day ts) div freq"
    and "(t - start_day ts) div freq \<le> (fold max ts' t0 - start_day ts) div freq"
    using assms(2) by (simp_all add: zdiv_mono1)
  then show ?thesis unfolding Cons bins_Cons by simp
qed

lemma bins_span:
  assumes "0 < freq"
  shows "set (bins freq ts) =
     {k. \<exists>t \<in> set ts. \<exists>t' \<in> set ts.
           (t - start_day ts) div freq \<le> k \<and> k \<le> (t' - start_day ts) div freq}"
proof (cases ts)
  case Nil
  then show ?thesis by (simp add: bins_def)
next
  case (Cons t0 ts')
  let ?lo = "fold min ts' t0" and ?hi = "fold max ts' t0" and ?o = "start_day ts"
  have b: "set (bins freq ts) = {(?lo - ?o) div freq .. (?hi - ?o) div freq}"
    unfolding Cons bins_Cons by simp
  have lo: "?lo \<in> set ts" and hi: "?hi \<in> set ts"
    using Cons fold_min_in [of ts' t0] fold_max_in [of ts' t0] by simp_all
  show ?thesis
  proof (intro set_eqI iffI)
    fix k assume "k \<in> set (bins freq ts)"
    then have "(?lo - ?o) div freq \<le> k \<and> k \<le> (?hi - ?o) div freq" using b by simp
    then show "k \<in> {k. \<exists>t \<in> set ts. \<exists>t' \<in> set ts.
           (t - ?o) div freq \<le> k \<and> k \<le> (t' - ?o) div freq}"
      using lo hi by blast
  next
    fix k assume "k \<in> {k. \<exists>t \<in> set ts. \<exists>t' \<in> set ts.
           (t - ?o) div freq \<le> k \<and> k \<le> (t' - ?o) div freq}"
    then obtain t t' where t: "t \<in> set ts" "t' \<in> set ts"
      and k: "(t - ?o) div freq \<le> k" "k \<le> (t' - ?o) div freq"
      by blast
    have "?lo - ?o \<le> t - ?o" "t' - ?o \<le> ?hi - ?o"
      using t Cons fold_min_le [of t t0 ts'] fold_max_ge [of t' t0 ts'] by simp_all
    then have "(?lo - ?o) div freq \<le> (t - ?o) div freq" "(t' - ?o) div freq \<le> (?hi - ?o) div freq"
      using assms by (simp_all add: zdiv_mono1)
    then show "k \<in> set (bins freq ts)" using b k by simp
  qed
qed

lemma bins_labels_increasing:
  assumes "0 < freq"
  shows "sorted_wrt (<) (map (\<lambda>k. origin + k * freq) (bins freq ts))"
proof -
  have "sorted_wrt (<) (bins freq ts)"
    by (cases ts) (simp_all add: bins_def strict_sorted_iff)
  moreover have "\<And>x y. x < y \<Longrightarrow> origin + x * freq < origin + y * freq"
    using assms by simp
  ultimately have "sorted_wrt (\<lambda>x y. origin + x * freq < origin + y * freq) (bins freq ts)"
    by (metis (mono_tags, lifting) sorted_wrt_mono_rel)
  then show ?thesis by (simp only: sorted_wrt_map)
qed


section \<open>A bucket of one row\<close>

lemma xcovariance_flux_entries:
  assumes a: "vertical_var \<in> set (xcolumns df)" and b: "scalar_var \<in> set (xcolumns df)"
    and f: "0 < freq"
    and kept: "kept = filter (\<lambda>r. snd r vertical_var \<noteq> XNaN \<and> snd r scalar_var \<noteq> XNaN) (xrows df)"
  shows "xcovariance_flux df vertical_var scalar_var freq scale_factor =
     Inr \<lparr>xname = Some (scalar_var @ ''_flux''),
          xentries = map (\<lambda>b. (start_day (map fst kept) + b * freq,
                xmul (xcompute_window_covariance vertical_var scalar_var
                       (df\<lparr>xcolumns := [vertical_var, scalar_var],
                           xrows := filter (\<lambda>r. (fst r - start_day (map fst kept)) div freq = b) kept\<rparr>))
                     scale_factor))
              (bins freq (map fst kept))\<rparr>"
proof -
  let ?df2 = "df\<lparr>xcolumns := [vertical_var, scalar_var]\<rparr>"
  have sel: "xgetitem_list df [vertical_var, scalar_var] = Inr ?df2"
    using a b by (simp add: xgetitem_list_def)
  have dn: "xdropna ?df2 = ?df2\<lparr>xrows := kept\<rparr>"
    by (simp add: xdropna_def kept)
  show ?thesis
    using f by (simp add: xcovariance_flux_def sel dn xgroupby_apply_def xindex_def xbucket_rows_def
        xseries_scale_def)
qed

lemma xcompute_window_covariance_single:
  assumes "xrows g = [r]" and "snd r vertical_var = Finite x" and "snd r scalar_var = Finite y"
  shows "xcompute_window_covariance vertical_var scalar_var g = Finite 0"
  using assms
  by (simp add: xcompute_window_covariance_def xcells_def xseries_mean_def xseries_sub_def
      xseries_mul_def xsub_def)

text \<open>
  Claim C10, as stated, fails: \<open>dropna\<close> keeps a row whose sample is infinite, and for a
  bucket of that one row the fluctuation is \<open>inf - inf\<close>, which is NaN, so the bucket's
  value is NaN and not 0.
\<close>

theorem single_row_bucket_infinite_sample_counterexample:
  "length (xrows (xbucket_rows (xdropna infinite_sample_table) (60 * second) 0)) = 1
   \<and> xcovariance_flux infinite_sample_table ''w'' ''T'' (60 * second) (Finite 1) =
       Inr \<lparr>xname = Some ''T_flux'', xentries = [(0, XNaN)]\<rparr>
   \<and> XNaN \<noteq> Finite 0"
  by (simp add: infinite_sample_table_def xcovariance_flux_def xgetitem_list_def xdropna_def
      xgroupby_apply_def xbucket_rows_def xindex_def bins_def start_day_def second_def
      ticks_per_day_def xcompute_window_covariance_def xcells_def xseries_mean_def
      xseries_sub_def xseries_mul_def xseries_scale_def xsub_def)

text \<open>
  Claim C10, amended. When, after the rows with a missing value are dropped, a time bucket
  holds exactly one row, and the two samples of that row are finite, \<open>covariance_flux\<close>
  returns exactly 0 for that bucket, not NaN, for every finite scale factor.
\<close>

theorem covariance_flux_single_finite_row_bucket:
  assumes "vertical_var \<in> set (xcolumns df)" and "scalar_var \<in> set (xcolumns df)" and "0 < freq"
    and "kept = filter (\<lambda>r. snd r vertical_var \<noteq> XNaN \<and> snd r scalar_var \<noteq> XNaN) (xrows df)"
    and "filter (\<lambda>r. (fst r - start_day (map fst kept)) div freq = k) kept = [r]"
    and "snd r vertical_var = Finite x" and "snd r scalar_var = Finite y"
  shows "\<exists>s. xcovariance_flux df vertical_var scalar_var freq (Finite scale_factor) = Inr s
           \<and> (\<forall>v. (start_day (map fst kept) + k * freq, v) \<in> set (xentries s) \<longleftrightarrow> v = Finite 0)"
proof -
  let ?o = "start_day (map fst kept)"
  define F where "F = (\<lambda>b. xmul (xcompute_window_covariance vertical_var scalar_var
                       (df\<lparr>xcolumns := [vertical_var, scalar_var],
                           xrows := filter (\<lambda>r. (fst r - ?o) div freq = b) kept\<rparr>))
                     (Finite scale_factor))"
  define s where "s = \<lparr>xname = Some (scalar_var @ ''_flux''),
             xentries = map (\<lambda>b. (?o + b * freq, F b)) (bins freq (map fst kept))\<rparr>"
  have res: "xcovariance_flux df vertical_var scalar_var freq (Finite scale_factor) = Inr s"
    using xcovariance_flux_entries [OF assms(1-4), of "Finite scale_factor"]
    by (simp add: s_def F_def)
  have ent: "set (xentries s) = (\<lambda>b. (?o + b * freq, F b)) ` set (bins freq (map fst kept))"
    by (simp add: s_def)
  have "r \<in> set (filter (\<lambda>r. (fst r - ?o) div freq = k) kept)"
    using assms(5) by simp
  then have rk: "r \<in> set kept" and rb: "(fst r - ?o) div freq = k"
    by auto
  have "fst r \<in> set (map fst kept)" using rk by (simp only: set_map image_eqI)
  then have kin: "k \<in> set (bins freq (map fst kept))"
    using bins_member [of "fst r" "map fst kept" freq] rb assms(3) by simp
  have "xcompute_window_covariance vertical_var scalar_var
          (df\<lparr>xcolumns := [vertical_var, scalar_var],
              xrows := filter (\<lambda>r. (fst r - ?o) div freq = k) kept\<rparr>) = Finite 0"
    using assms(5-7) by (intro xcompute_window_covariance_single [of _ r _ x _ y]) simp_all
  then have vk: "F k = Finite 0"
    by (simp add: F_def)
  have inj: "?o + b * freq = ?o + k * freq \<Longrightarrow> b = k" for b
    using assms(3) by simp
  have "(?o + k * freq, v) \<in> set (xentries s) \<longleftrightarrow> v = Finite 0" for v
  proof
    assume "(?o + k * freq, v) \<in> set (xentries s)"
    then obtain b where "(?o + k * freq, v) = (?o + b * freq, F b)"
      unfolding ent by (rule imageE)
    then have "?o + b * freq = ?o + k * freq" and "v = F b" by (simp_all only: prod.inject)
    then show "v = Finite 0" using inj [of b] vk by (simp only:)
  next
    assume "v = Finite 0"
    then have "(?o + k * freq, v) = (?o + k * freq, F k)" using vk by simp
    then show "(?o + k * freq, v) \<in> set (xentries s)"
      unfolding ent using kin by (rule image_eqI)
  qed
  then show ?thesis using res by blast
qed


theorem covariance_flux_single_finite_row_bucket_witness:
  "''w'' \<in> set (xcolumns float_gap_table) \<and> ''T'' \<in> set (xcolumns float_gap_table)
   \<and> 0 < 60 * second
   \<and> filter (\<lambda>r. snd r ''w'' \<noteq> XNaN \<and> snd r ''T'' \<noteq> XNaN) (xrows float_gap_table) =
       [(0, (\<lambda>c. XNaN)(''w'' := Finite 1, ''T'' := Finite 2)),
        (10 * second, (\<lambda>c. XNaN)(''w'' := Finite 3, ''T'' := PosInf)),
        (130 * second, (\<lambda>c. XNaN)(''w'' := Finite 3, ''T'' := Finite 4))]
   \<and> (\<exists>s. xcovariance_flux float_gap_table ''w'' ''T'' (60 * second) (Finite 7) = Inr s
           \<and> (\<forall>v. (120 * second, v) \<in> set (xentries s) \<longleftrightarrow> v = Finite 0))"
proof -
  define kept :: "(int \<times> (string \<Rightarrow> xfloat)) list" where
    "kept = [(0, (\<lambda>c. XNaN)(''w'' := Finite 1, ''T'' := Finite 2)),
        (10 * second, (\<lambda>c. XNaN)(''w'' := Finite 3, ''T'' := PosInf)),
        (130 * second, (\<lambda>c. XNaN)(''w'' := Finite 3, ''T'' := Finite 4))]"
  define r :: "int \<times> (string \<Rightarrow> xfloat)" where
    "r = (130 * second, (\<lambda>c. XNaN)(''w'' := Finite 3, ''T'' := Finite 4))"
  have c: "''w'' \<in> set (xcolumns float_gap_table)" "''T'' \<in> set (xcolumns float_gap_table)"
    by (simp_all add: float_gap_table_def)
  have f: "0 < 60 * second" by (simp add: second_def)
  have k: "kept = filter (\<lambda>r. snd r ''w'' \<noteq> XNaN \<and> snd r ''T'' \<noteq> XNaN) (xrows float_gap_table)"
    by (simp add: float_gap_table_def kept_def)
  have o: "start_day (map fst kept) = 0"
    by (simp add: kept_def start_day_def second_def ticks_per_day_def)
  have g: "filter (\<lambda>r. (fst r - start_day (map fst kept)) div (60 * second) = 2) kept = [r]"
    unfolding o by (simp add: kept_def r_def second_def)
  have x: "snd r ''w'' = Finite 3" and y: "snd r ''T'' = Finite 4"
    by (simp_all add: r_def)
  from covariance_flux_single_finite_row_bucket [OF c f k g x y, of 7]
  obtain s where "xcovariance_flux float_gap_table ''w'' ''T'' (60 * second) (Finite 7) = Inr s"
    and "\<forall>v. (start_day (map fst kept) + 2 * (60 * second), v) \<in> set (xentries s) \<longleftrightarrow> v = Finite 0"
    by blast
  then have e: "\<exists>s. xcovariance_flux float_gap_table ''w'' ''T'' (60 * second) (Finite 7) = Inr s
           \<and> (\<forall>v. (120 * second, v) \<in> set (xentries s) \<longleftrightarrow> v = Finite 0)"
    unfolding o by (intro exI [of _ s]) simp
  show ?thesis
    using c f k [symmetric] e unfolding kept_def by (intro conjI)
qed


section \<open>The two float models agree on finite samples\<close>

lemma to_xfloat_NaN: "to_xfloat v \<noteq> XNaN \<longleftrightarrow> v \<noteq> None"
  by (cases v) (simp_all add: to_xfloat_def)

lemma filter_to_xfloat: "filter (\<lambda>x. x \<noteq> XNaN) (map to_xfloat xs) = map Finite (present xs)"
  by (induction xs rule: present.induct) (simp_all add: to_xfloat_def)

lemma foldl_xadd_Finite: "foldl xadd (Finite a) (map Finite ys) = Finite (a + sum_list ys)"
  by (induction ys arbitrary: a) (simp_all add: algebra_simps)

lemma xseries_mean_to_xfloat: "xseries_mean (map to_xfloat xs) = to_xfloat (series_mean xs)"
  by (simp add: xseries_mean_def series_mean_def filter_to_xfloat foldl_xadd_Finite to_xfloat_def Let_def)

lemma xsub_to_xfloat: "xsub (to_xfloat a) (to_xfloat b) = to_xfloat (nan_lift2 (-) a b)"
  by (cases a; cases b) (simp_all add: to_xfloat_def xsub_def)

lemma xmul_to_xfloat: "xmul (to_xfloat a) (to_xfloat b) = to_xfloat (nan_lift2 (*) a b)"
  by (cases a; cases b) (simp_all add: to_xfloat_def)

lemma xseries_sub_to_xfloat:
  "xseries_sub (map to_xfloat xs) (to_xfloat m) = map to_xfloat (series_sub xs m)"
  by (simp add: xseries_sub_def series_sub_def xsub_to_xfloat)

lemma xseries_mul_to_xfloat:
  "xseries_mul (map to_xfloat xs) (map to_xfloat ys) = map to_xfloat (series_mul xs ys)"
  by (simp add: xseries_mul_def series_mul_def zip_map_map case_prod_unfold xmul_to_xfloat)

lemma xcells_to_xframe: "xcells (to_xframe g) c = map to_xfloat (cells g c)"
  by (simp add: xcells_def cells_def to_xframe_def comp_def)

lemma xcompute_window_covariance_to_xframe:
  "xcompute_window_covariance a b (to_xframe g) = to_xfloat (compute_window_covariance a b g)"
  by (simp only: xcompute_window_covariance_def compute_window_covariance_def Let_def
      xcells_to_xframe xseries_mean_to_xfloat xseries_sub_to_xfloat xseries_mul_to_xfloat)

lemma xindex_to_xframe: "xindex (to_xframe d) = index d"
  by (simp add: xindex_def index_def to_xframe_def comp_def)

lemma xdropna_to_xframe: "xdropna (to_xframe d) = to_xframe (dropna d)"
  by (simp add: xdropna_def dropna_def to_xframe_def filter_map comp_def to_xfloat_NaN)

lemma xbucket_rows_to_xframe: "xbucket_rows (to_xframe d) freq b = to_xframe (bucket_rows d freq b)"
  by (simp add: xbucket_rows_def bucket_rows_def xindex_to_xframe)
     (simp add: to_xframe_def filter_map comp_def)

lemma xgetitem_list_to_xframe:
  "xgetitem_list (to_xframe df) cols = map_sum id to_xframe (getitem_list df cols)"
  by (simp add: xgetitem_list_def getitem_list_def to_xframe_def split: list.splits)

lemma xgroupby_apply_to_xframe:
  assumes "\<And>g. fx (to_xframe g) = to_xfloat (f g)"
  shows "xgroupby_apply (to_xframe d) freq fx = map_sum id to_xseries (groupby_apply d freq f)"
  by (simp add: xgroupby_apply_def groupby_apply_def xindex_to_xframe xbucket_rows_to_xframe
      assms to_xseries_def comp_def)

lemma xcovariance_flux_to_xframe:
  "xcovariance_flux (to_xframe df) a b freq (Finite k) =
     map_sum id to_xseries (covariance_flux df a b freq k)"
proof (cases "getitem_list df [a, b]")
  case (Inl e)
  then show ?thesis
    by (simp add: xcovariance_flux_def covariance_flux_def xgetitem_list_to_xframe)
next
  case (Inr df2)
  have g: "xgroupby_apply (xdropna (to_xframe df2)) freq (xcompute_window_covariance a b) =
           map_sum id to_xseries (groupby_apply (dropna df2) freq (compute_window_covariance a b))"
    unfolding xdropna_to_xframe
    by (rule xgroupby_apply_to_xframe) (rule xcompute_window_covariance_to_xframe)
  have sc: "xseries_scale (to_xseries s\<lparr>xname := Some n\<rparr>) (Finite k) =
            to_xseries (series_scale (s\<lparr>name := Some n\<rparr>) k)" for s n
    using xmul_to_xfloat [of _ "Some k"]
    by (simp add: xseries_scale_def series_scale_def to_xseries_def case_prod_unfold comp_def to_xfloat_def)
  show ?thesis
    using Inr g sc
    by (cases "groupby_apply (dropna df2) freq (compute_window_covariance a b)")
       (simp_all add: xcovariance_flux_def covariance_flux_def xgetitem_list_to_xframe)
qed

section \<open>Empty buckets and short windows\<close>

lemma take_window_of_truncated:
  assumes "m * k + k \<le> n"
  shows "take k (drop (m * k) (take n xs)) = take k (drop (m * k) xs)"
proof -
  have "k \<le> n - m * k" using assms by simp
  then show ?thesis by (simp add: drop_take min_absorb1)
qed


lemma tke_truncated:
  assumes "1 \<le> window_size"
    and "u \<in> set (columns df)" and "v \<in> set (columns df)" and "w \<in> set (columns df)"
  shows "tke (df\<lparr>rows := take (len df div nat window_size * nat window_size) (rows df)\<rparr>) window_size u v w
         = tke df window_size u v w"
proof -
  let ?k = "nat window_size"
  let ?n = "len df div ?k"
  let ?tr = "df\<lparr>rows := take (?n * ?k) (rows df)\<rparr>"
  have k: "0 < ?k" using assms(1) by simp
  have "?n * ?k \<le> len df" by simp
  then have l: "len ?tr = ?n * ?k" by (simp add: len_def)
  then have n: "len ?tr div ?k = ?n" using k by simp
  have c: "u \<in> set (columns ?tr)" "v \<in> set (columns ?tr)" "w \<in> set (columns ?tr)"
    using assms(2-4) by simp_all
  have full: "m * ?k + ?k \<le> ?n * ?k" if "m < ?n" for m
  proof -
    have "Suc m \<le> ?n" using that by simp
    then have "Suc m * ?k \<le> ?n * ?k" by (rule mult_le_mono1)
    then show ?thesis by simp
  qed
  have val: "tke_value (?tr\<lparr>rows := take ?k (drop (m * ?k) (rows ?tr))\<rparr>) u v w
           = tke_value (df\<lparr>rows := take ?k (drop (m * ?k) (rows df))\<rparr>) u v w" if "m < ?n" for m
    using take_window_of_truncated [OF full [OF that], of "rows df"] by simp
  have mid: "index ?tr ! (m * ?k + ?k div 2) = index df ! (m * ?k + ?k div 2)" if "m < ?n" for m
  proof -
    have "?k div 2 < ?k" using k by simp
    then have "m * ?k + ?k div 2 < ?n * ?k" using full [OF that] by linarith
    then show ?thesis by (simp add: index_def take_map [symmetric])
  qed
  have "map (\<lambda>m. tke_value (?tr\<lparr>rows := take ?k (drop (m * ?k) (rows ?tr))\<rparr>) u v w) [0..<?n]
      = map (\<lambda>m. tke_value (df\<lparr>rows := take ?k (drop (m * ?k) (rows df))\<rparr>) u v w) [0..<?n]"
    using val by (simp only: map_eq_conv) simp
  moreover have "map (\<lambda>m. index ?tr ! (m * ?k + ?k div 2)) [0..<?n]
      = map (\<lambda>m. index df ! (m * ?k + ?k div 2)) [0..<?n]"
    using mid by (simp only: map_eq_conv) simp
  ultimately show ?thesis
    unfolding tke_result(1) [OF assms] tke_result(1) [OF assms(1) c] n
    by (simp only:)
qed

text \<open>
  Claim C8, as stated, fails: \<open>covariance_flux\<close> drops the rows with a missing value
  before it groups, so a bucket within the span of the table that lies after the last (or
  before the first) row without a missing value is not in the output. In the table below
  the fourth minute holds a row whose \<open>w\<close> is missing, and the output ends with the
  third minute.
\<close>

theorem time_buckets_of_table_span_counterexample:
  "''w'' \<in> set (columns gap_table) \<and> ''T'' \<in> set (columns gap_table)
   \<and> 3 \<in> set (bins (60 * second) (index gap_table))
   \<and> covariance_flux gap_table ''w'' ''T'' (60 * second) 1 =
       Inr \<lparr>name = Some ''T_flux'',
            entries = [(0, Some 2), (60 * second, None), (120 * second, Some 0)]\<rparr>
   \<and> start_day (index gap_table) + 3 * (60 * second)
        \<notin> fst ` set [(0, Some 2), (60 * second, None), (120 * second, Some (0::real))]"
  by (simp add: covariance_flux_def gap_table_def getitem_list_def dropna_def groupby_apply_def
        bins_def start_day_def second_def ticks_per_day_def index_def bucket_rows_def
        compute_window_covariance_def cells_def series_sub_def series_mean_def series_mul_def
        series_scale_def upto.simps)

text \<open>
  Claim C8, amended. In time-bucket mode the output of \<open>covariance_flux\<close> has, in
  increasing order of time and once each, exactly the buckets from the bucket of the
  earliest to the bucket of the latest of the rows that remain after the rows with a
  missing value are dropped (buckets of length \<open>freq\<close> counted from midnight of the day
  of the earliest remaining row); a bucket in that range with no remaining row appears,
  with the value NaN. In fixed-count mode \<open>tke\<close> returns \<open>N div k\<close> windows, and the rows after
  the last full window never appear: the result is that of the table cut after its last
  full window.
\<close>

theorem time_buckets_and_short_windows:
  "(a \<in> set (columns df) \<longrightarrow> b \<in> set (columns df) \<longrightarrow> 0 < freq \<longrightarrow>
     (let kept = filter (\<lambda>r. snd r a \<noteq> None \<and> snd r b \<noteq> None) (rows df);
          ts = map fst kept;
          origin = start_day ts
      in \<exists>s. covariance_flux df a b freq scale_factor = Inr s
           \<and> map fst (entries s) = map (\<lambda>k. origin + k * freq) (bins freq ts)
           \<and> set (bins freq ts) =
               {k. \<exists>t \<in> set ts. \<exists>t' \<in> set ts.
                     (t - origin) div freq \<le> k \<and> k \<le> (t' - origin) div freq}
           \<and> sorted_wrt (<) (map fst (entries s))
           \<and> (\<forall>k \<in> set (bins freq ts).
                 filter (\<lambda>r. (fst r - origin) div freq = k) kept = [] \<longrightarrow>
                 (origin + k * freq, None) \<in> set (entries s))))
   \<and> (1 \<le> window_size \<longrightarrow> u \<in> set (columns df) \<longrightarrow> v \<in> set (columns df) \<longrightarrow>
       w \<in> set (columns df) \<longrightarrow>
        (\<exists>tke_list time_midpoints.
            tke df window_size u v w = Inr (tke_list, time_midpoints)
          \<and> length tke_list = len df div nat window_size
          \<and> length time_midpoints = len df div nat window_size
          \<and> tke (df\<lparr>rows := take (len df div nat window_size * nat window_size) (rows df)\<rparr>)
                window_size u v w = Inr (tke_list, time_midpoints)))"
proof (intro conjI impI)
  assume h: "a \<in> set (columns df)" "b \<in> set (columns df)" "0 < freq"
  let ?kept = "filter (\<lambda>r. snd r a \<noteq> None \<and> snd r b \<noteq> None) (rows df)"
  let ?ts = "map fst ?kept"
  let ?o = "start_day ?ts"
  define F where "F = (\<lambda>k. if filter (\<lambda>r. (fst r - ?o) div freq = k) ?kept = [] then None
     else Some (scale_factor * population_covariance
        (present (map (\<lambda>r. snd r a) (filter (\<lambda>r. (fst r - ?o) div freq = k) ?kept)))
        (present (map (\<lambda>r. snd r b) (filter (\<lambda>r. (fst r - ?o) div freq = k) ?kept)))))"
  define s where "s = \<lparr>name = Some (b @ ''_flux''),
             entries = map (\<lambda>k. (?o + k * freq, F k)) (bins freq ?ts)\<rparr>"
  have res: "covariance_flux df a b freq scale_factor = Inr s"
    using covariance_flux_buckets [OF h, of scale_factor] by (simp add: Let_def s_def F_def)
  have keys: "map fst (entries s) = map (\<lambda>k. ?o + k * freq) (bins freq ?ts)"
    by (simp add: s_def comp_def)
  have span: "set (bins freq ?ts) =
               {k. \<exists>t \<in> set ?ts. \<exists>t' \<in> set ?ts.
                     (t - ?o) div freq \<le> k \<and> k \<le> (t' - ?o) div freq}"
    using h(3) by (rule bins_span)
  have incr: "sorted_wrt (<) (map fst (entries s))"
    unfolding keys using h(3) by (rule bins_labels_increasing)
  have empty: "\<forall>k \<in> set (bins freq ?ts).
                 filter (\<lambda>r. (fst r - ?o) div freq = k) ?kept = [] \<longrightarrow>
                 (?o + k * freq, None) \<in> set (entries s)"
  proof (intro ballI impI)
    fix k assume k: "k \<in> set (bins freq ?ts)" and e: "filter (\<lambda>r. (fst r - ?o) div freq = k) ?kept = []"
    have "F k = None" unfolding F_def using e by simp
    then have "(?o + k * freq, None) = (?o + k * freq, F k)" by simp
    moreover have "set (entries s) = (\<lambda>k. (?o + k * freq, F k)) ` set (bins freq ?ts)"
      by (simp add: s_def)
    ultimately show "(?o + k * freq, None) \<in> set (entries s)"
      using k by blast
  qed
  show "let kept = filter (\<lambda>r. snd r a \<noteq> None \<and> snd r b \<noteq> None) (rows df);
          ts = map fst kept;
          origin = start_day ts
      in \<exists>s. covariance_flux df a b freq scale_factor = Inr s
           \<and> map fst (entries s) = map (\<lambda>k. origin + k * freq) (bins freq ts)
           \<and> set (bins freq ts) =
               {k. \<exists>t \<in> set ts. \<exists>t' \<in> set ts.
                     (t - origin) div freq \<le> k \<and> k \<le> (t' - origin) div freq}
           \<and> sorted_wrt (<) (map fst (entries s))
           \<and> (\<forall>k \<in> set (bins freq ts).
                 filter (\<lambda>r. (fst r - origin) div freq = k) kept = [] \<longrightarrow>
                 (origin + k * freq, None) \<in> set (entries s))"
    unfolding Let_def using res keys span incr empty by blast
next
  assume h: "1 \<le> window_size" "u \<in> set (columns df)" "v \<in> set (columns df)" "w \<in> set (columns df)"
  let ?k = "nat window_size"
  let ?xs = "map (\<lambda>m. tke_value (df\<lparr>rows := take ?k (drop (m * ?k) (rows df))\<rparr>) u v w) [0..<len df div ?k]"
  let ?ts = "map (\<lambda>m. index df ! (m * ?k + ?k div 2)) [0..<len df div ?k]"
  have r: "tke df window_size u v w = Inr (?xs, ?ts)"
    using tke_result(1) [OF h] .
  have t: "tke (df\<lparr>rows := take (len df div ?k * ?k) (rows df)\<rparr>) window_size u v w = Inr (?xs, ?ts)"
    using tke_truncated [OF h] r by simp
  have "length ?xs = len df div ?k" "length ?ts = len df div ?k" by simp_all
  then show "\<exists>tke_list time_midpoints.
            tke df window_size u v w = Inr (tke_list, time_midpoints)
          \<and> length tke_list = len df div nat window_size
          \<and> length time_midpoints = len df div nat window_size
          \<and> tke (df\<lparr>rows := take (len df div nat window_size * nat window_size) (rows df)\<rparr>)
                window_size u v w = Inr (tke_list, time_midpoints)"
    using r t by blast
qed


theorem time_buckets_and_short_windows_witness:
  "''w'' \<in> set (columns gap_table) \<and> ''T'' \<in> set (columns gap_table) \<and> 0 < 60 * second
   \<and> (\<exists>s. covariance_flux gap_table ''w'' ''T'' (60 * second) 1 = Inr s
          \<and> map fst (entries s) = [0, 60 * second, 120 * second]
          \<and> (60 * second, None) \<in> set (entries s))
   \<and> (1::int) \<le> 4 \<and> ''u'' \<in> set (columns tke_table) \<and> ''v'' \<in> set (columns tke_table)
   \<and> ''w'' \<in> set (columns tke_table)
   \<and> (\<exists>tke_list time_midpoints.
          tke tke_table 4 ''u'' ''v'' ''w'' = Inr (tke_list, time_midpoints)
        \<and> length tke_list = 1 \<and> length time_midpoints = 1
        \<and> tke (tke_table\<lparr>rows := take 4 (rows tke_table)\<rparr>) 4 ''u'' ''v'' ''w''
            = Inr (tke_list, time_midpoints))"
proof -
  have g: "''w'' \<in> set (columns gap_table)" "''T'' \<in> set (columns gap_table)" "0 < 60 * second"
    by (simp_all add: gap_table_def second_def)
  have c: "(1::int) \<le> 4" "''u'' \<in> set (columns tke_table)" "''v'' \<in> set (columns tke_table)"
    "''w'' \<in> set (columns tke_table)"
    by (simp_all add: tke_table_def)
  let ?kept = "filter (\<lambda>r. snd r ''w'' \<noteq> None \<and> snd r ''T'' \<noteq> None) (rows gap_table)"
  have o: "start_day (map fst ?kept) = 0"
    by (simp add: gap_table_def start_day_def second_def ticks_per_day_def)
  have b: "bins (60 * second) (map fst ?kept) = [0, 1, 2]"
    by (simp add: gap_table_def bins_def start_day_def second_def ticks_per_day_def upto.simps)
  have e: "filter (\<lambda>r. (fst r - start_day (map fst ?kept)) div (60 * second) = 1) ?kept = []"
    unfolding o by (simp add: gap_table_def second_def)
  from time_buckets_and_short_windows
    [of "''w''" gap_table "''T''" "60 * second" 1 4 "''u''" "''v''" "''w''"] g
  obtain s where r: "covariance_flux gap_table ''w'' ''T'' (60 * second) 1 = Inr s"
    and k: "map fst (entries s) =
              map (\<lambda>k. start_day (map fst ?kept) + k * (60 * second)) (bins (60 * second) (map fst ?kept))"
    and m: "\<forall>k \<in> set (bins (60 * second) (map fst ?kept)).
                 filter (\<lambda>r. (fst r - start_day (map fst ?kept)) div (60 * second) = k) ?kept = [] \<longrightarrow>
                 (start_day (map fst ?kept) + k * (60 * second), None) \<in> set (entries s)"
    unfolding Let_def by blast
  have k': "map fst (entries s) = [0, 60 * second, 120 * second]"
    using k unfolding o b by simp
  have "(1::int) \<in> set (bins (60 * second) (map fst ?kept))" unfolding b by simp
  then have "(start_day (map fst ?kept) + 1 * (60 * second), None) \<in> set (entries s)"
    using m e by blast
  then have m': "(60 * second, None) \<in> set (entries s)" unfolding o by simp
  have n: "len tke_table div nat 4 = 1" "len tke_table div nat 4 * nat 4 = 4"
    by (simp_all add: tke_table_def len_def)
  from time_buckets_and_short_windows
    [of "''w''" tke_table "''T''" "60 * second" 1 4 "''u''" "''v''" "''w''"] c
  obtain xs ts where t: "tke tke_table 4 ''u'' ''v'' ''w'' = Inr (xs, ts)"
    and l: "length xs = len tke_table div nat 4" "length ts = len tke_table div nat 4"
    and tr: "tke (tke_table\<lparr>rows := take (len tke_table div nat 4 * nat 4) (rows tke_table)\<rparr>)
                4 ''u'' ''v'' ''w'' = Inr (xs, ts)"
    by blast
  have l': "length xs = 1" "length ts = 1" using l n(1) by simp_all
  have tr': "tke (tke_table\<lparr>rows := take 4 (rows tke_table)\<rparr>) 4 ''u'' ''v'' ''w'' = Inr (xs, ts)"
    using tr by (simp only: n(2))
  have p1: "\<exists>s. covariance_flux gap_table ''w'' ''T'' (60 * second) 1 = Inr s
          \<and> map fst (entries s) = [0, 60 * second, 120 * second]
          \<and> (60 * second, None) \<in> set (entries s)"
    using r k' m' by (intro exI [of _ s] conjI)
  have p2: "\<exists>tke_list time_midpoints.
          tke tke_table 4 ''u'' ''v'' ''w'' = Inr (tke_list, time_midpoints)
        \<and> length tke_list = 1 \<and> length time_midpoints = 1
        \<and> tke (tke_table\<lparr>rows := take 4 (rows tke_table)\<rparr>) 4 ''u'' ''v'' ''w''
            = Inr (tke_list, time_midpoints)"
    using t l' tr' by (intro exI [of _ xs] exI [of _ ts] conjI)
  show ?thesis
    by (intro conjI) (fact g c p1 p2)+
qed

end
